theory Spec2Isabelle
  imports Complex_Main
begin

section \<open>JavaScript primitives used by the service\<close>

text \<open>
  Strings are byte strings. Numbers that the code only ever uses as integers (page
  numbers, battery levels, rotations, pixel sizes) are \<open>int\<close>; the image adjustments
  (contrast, level bounds) are exact reals, with \<open>NaN\<close> written out as \<open>None\<close> where
  the code can produce it.
\<close>

text \<open>The remainder operator \<^verbatim>\<open>%\<close>: the result has the sign of the dividend.\<close>

definition js_rem :: "int \<Rightarrow> int \<Rightarrow> int" where
  "js_rem a b = sgn a * (\<bar>a\<bar> mod \<bar>b\<bar>)"

text \<open>\<^verbatim>\<open>Math.round\<close>: to the nearest integer, halves towards plus infinity.\<close>

definition math_round :: "real \<Rightarrow> int" where
  "math_round x = \<lfloor>x + 1 / 2\<rfloor>"

text \<open>
  White space as \<^verbatim>\<open>parseInt\<close> skips it: the six ASCII characters, and the other white
  space and line terminator code points in their UTF-8 bytes (U+00A0, U+1680, U+2000 to
  U+200A, U+2028, U+2029, U+202F, U+205F, U+3000, U+FEFF). \<open>ws_prefix\<close> is the number of
  bytes of the white space character a string starts with, 0 when it starts with none.
\<close>

definition is_ws :: "char \<Rightarrow> bool" where
  "is_ws c = (c = CHR 0x09 \<or> c = CHR 0x0A \<or> c = CHR 0x0B \<or> c = CHR 0x0C
      \<or> c = CHR 0x0D \<or> c = CHR 0x20)"

definition ws_prefix :: "string \<Rightarrow> nat" where
  "ws_prefix s =
     (case s of
        [] \<Rightarrow> 0
      | c # r \<Rightarrow>
          if is_ws c then 1
          else if take 2 s = [CHR 0xC2, CHR 0xA0] then 2
          else if take 3 s = [CHR 0xE1, CHR 0x9A, CHR 0x80] then 3
          else if take 2 s = [CHR 0xE2, CHR 0x80] \<and> length s \<ge> 3
                  \<and> ((of_char (s ! 2) :: nat) \<in> {0x80..0x8A}
                       \<or> s ! 2 = CHR 0xA8 \<or> s ! 2 = CHR 0xA9 \<or> s ! 2 = CHR 0xAF) then 3
          else if take 3 s = [CHR 0xE2, CHR 0x81, CHR 0x9F] then 3
          else if take 3 s = [CHR 0xE3, CHR 0x80, CHR 0x80] then 3
          else if take 3 s = [CHR 0xEF, CHR 0xBB, CHR 0xBF] then 3
          else 0)"

lemma ws_prefix_shorter: "0 < ws_prefix s \<Longrightarrow> length s - ws_prefix s < length s"
  by (cases s) (simp_all add: ws_prefix_def)

function skip_ws :: "string \<Rightarrow> string" where
  "skip_ws s = (if ws_prefix s = 0 then s else skip_ws (drop (ws_prefix s) s))"
  by pat_completeness auto
termination
  by (relation "measure length") (simp_all add: ws_prefix_shorter)

declare skip_ws.simps [simp del]

text \<open>
  \<^verbatim>\<open>parseInt(s)\<close> with no radix: leading white space is skipped, one sign is read, a
  \<^verbatim>\<open>0x\<close> prefix switches to base 16, and the longest run of digits is the value; no
  digit at all gives \<open>NaN\<close> (\<open>None\<close>). The value is exact here; the code's numbers
  round above \<open>2 ^ 53\<close>, far beyond any page count or battery level.
\<close>

definition digit_of :: "char \<Rightarrow> nat option" where
  "digit_of c =
     (let n = (of_char c :: nat) in
        if 48 \<le> n \<and> n \<le> 57 then Some (n - 48)
        else if 97 \<le> n \<and> n \<le> 102 then Some (n - 87)
        else if 65 \<le> n \<and> n \<le> 70 then Some (n - 55)
        else None)"

definition radix_digit :: "nat \<Rightarrow> char \<Rightarrow> nat option" where
  "radix_digit r c =
     (case digit_of c of
        None \<Rightarrow> None
      | Some d \<Rightarrow> if d < r then Some d else None)"

fun parse_digits :: "nat \<Rightarrow> string \<Rightarrow> nat \<Rightarrow> nat" where
  "parse_digits r [] acc = acc"
| "parse_digits r (c # cs) acc =
     (case radix_digit r c of
        None \<Rightarrow> acc
      | Some d \<Rightarrow> parse_digits r cs (acc * r + d))"

definition strip_sign :: "string \<Rightarrow> bool \<times> string" where
  "strip_sign t =
     (case t of
        [] \<Rightarrow> (False, t)
      | c # r \<Rightarrow> if c = CHR ''-'' then (True, r)
                 else if c = CHR ''+'' then (False, r)
                 else (False, t))"

definition strip_radix :: "string \<Rightarrow> nat \<times> string" where
  "strip_radix u =
     (if take 2 u = ''0x'' \<or> take 2 u = ''0X'' then (16, drop 2 u) else (10, u))"

definition parseInt :: "string \<Rightarrow> int option" where
  "parseInt s =
     (let (neg, u) = strip_sign (skip_ws s);
          (radix, v) = strip_radix u
      in case v of
           [] \<Rightarrow> None
         | c # _ \<Rightarrow>
             (case radix_digit radix c of
                None \<Rightarrow> None
              | Some _ \<Rightarrow>
                  Some ((if neg then - 1 else 1) * int (parse_digits radix v 0))))"

text \<open>\<^verbatim>\<open>parseInt(x)\<close> of a query parameter that may be absent: \<^verbatim>\<open>null\<close> is read as
  the string \<^verbatim>\<open>"null"\<close>.\<close>

definition parseInt_param :: "string option \<Rightarrow> int option" where
  "parseInt_param p = (case p of None \<Rightarrow> parseInt ''null'' | Some v \<Rightarrow> parseInt v)"

text \<open>\<^verbatim>\<open>s.includes(t)\<close> and \<^verbatim>\<open>s.startsWith(t)\<close>.\<close>

definition startsWith :: "string \<Rightarrow> string \<Rightarrow> bool" where
  "startsWith s t = (take (length t) s = t)"

fun includes_str :: "string \<Rightarrow> string \<Rightarrow> bool" where
  "includes_str [] t = (t = [])"
| "includes_str (c # cs) t = (startsWith (c # cs) t \<or> includes_str cs t)"


section \<open>Configuration (config.js)\<close>

record screen_size =
  width :: int
  height :: int

record page_config =
  screenShotUrl :: string
  imageFormat :: string
  outputPath :: string
  renderingDelay :: int
  renderingScreenSize :: screen_size
  grayscaleDepth :: int
  removeGamma :: bool
  blackLevel :: string
  whiteLevel :: string
  dither :: bool
  colorMode :: string
  prefersColorScheme :: string
  rotation :: int
  scaling :: real
  batteryWebHook :: "string option"
  saturation :: real
  contrast :: real

record config =
  baseUrl :: string
  pages :: "page_config list"
  debug :: bool

text \<open>\<^verbatim>\<open>Number(value) || fallback\<close>, as \<^verbatim>\<open>getPagesConfig\<close> reads its numeric settings:
  \<open>NaN\<close> (\<open>None\<close>) and 0 both give the fallback.\<close>

definition number_or :: "real option \<Rightarrow> real \<Rightarrow> real" where
  "number_or v fallback =
     (case v of None \<Rightarrow> fallback | Some x \<Rightarrow> if x = 0 then fallback else x)"

text \<open>The contrast of a page, from the number read from \<^verbatim>\<open>CONTRAST\<close>.\<close>

definition config_contrast :: "real option \<Rightarrow> real" where
  "config_contrast v = number_or v 1"

text \<open>The page that \<^verbatim>\<open>getPagesConfig\<close> builds when only the screenshot URL is set.\<close>

definition default_page :: "string \<Rightarrow> page_config" where
  "default_page u =
     \<lparr> screenShotUrl = u, imageFormat = ''png'', outputPath = ''output/cover'',
       renderingDelay = 0, renderingScreenSize = \<lparr> width = 600, height = 800 \<rparr>,
       grayscaleDepth = 8, removeGamma = False, blackLevel = ''0%'',
       whiteLevel = ''100%'', dither = False, colorMode = ''GrayScale'',
       prefersColorScheme = ''light'', rotation = 0, scaling = 1,
       batteryWebHook = None, saturation = 1, contrast = 1 \<rparr>"


section \<open>Startup validation (the main function of index.js)\<close>

datatype startup_error = NoPages | InvalidRotation nat int

text \<open>The \<^verbatim>\<open>for (const i in config.pages)\<close> loop: the first page whose rotation has a
  positive remainder modulo 90 ends the startup.\<close>

fun check_rotations :: "nat \<Rightarrow> page_config list \<Rightarrow> startup_error option" where
  "check_rotations i [] = None"
| "check_rotations i (p # ps) =
     (if js_rem (rotation p) 90 > 0 then Some (InvalidRotation i (rotation p))
      else check_rotations (Suc i) ps)"

definition startup_check :: "config \<Rightarrow> startup_error option" where
  "startup_check cfg =
     (if length (pages cfg) = 0 then Some NoPages else check_rotations 0 (pages cfg))"


section \<open>Capture viewport (renderUrlToImageAsync)\<close>

record clip_rect =
  clip_x :: int
  clip_y :: int
  clip_width :: int
  clip_height :: int

definition effective_size :: "page_config \<Rightarrow> screen_size" where
  "effective_size pageConfig =
     (let size0 = \<lparr> width = width (renderingScreenSize pageConfig),
                    height = height (renderingScreenSize pageConfig) \<rparr>
      in if js_rem (rotation pageConfig) 180 > 0
         then \<lparr> width = height size0, height = width size0 \<rparr>
         else size0)"

definition screenshot_clip :: "screen_size \<Rightarrow> clip_rect" where
  "screenshot_clip sz =
     \<lparr> clip_x = 0, clip_y = 0, clip_width = width sz, clip_height = height sz \<rparr>"


section \<open>Image post-processing (convertImageToKindleCompatiblePngAsync)\<close>

text \<open>
  The function builds a chain of calls on a \<^verbatim>\<open>sharp\<close> image object and then writes the
  file. The chain is modelled as the list of calls, in order; what the image library does
  with them is outside the repository.
\<close>

datatype sharp_op =
    Gamma real
  | Rotate int string
  | Grayscale
  | Modulate real
  | Linear real real
  | LinearNonFinite
  | Sharpen real
  | ToColorspace string
  | Png nat "bool option"

text \<open>\<open>Png c p\<close> is \<^verbatim>\<open>.png({ compressionLevel: c, palette: p })\<close>, with \<open>p = None\<close> when
  the option is not passed. \<open>LinearNonFinite\<close> is a call of \<^verbatim>\<open>.linear\<close> with an argument
  that is \<open>NaN\<close> or infinite.\<close>

definition is_grayscale :: "page_config \<Rightarrow> bool" where
  "is_grayscale pageConfig =
     (colorMode pageConfig = ''GrayScale'' \<or> colorMode pageConfig = ''Grayscale'')"

definition gamma_step :: "page_config \<Rightarrow> sharp_op list" where
  "gamma_step pageConfig = (if removeGamma pageConfig then [Gamma (1.0 / 2.2)] else [])"

definition rotate_step :: "page_config \<Rightarrow> sharp_op list" where
  "rotate_step pageConfig =
     (if rotation pageConfig \<noteq> 0 then [Rotate (rotation pageConfig) ''#ffffff''] else [])"

definition grayscale_step :: "page_config \<Rightarrow> sharp_op list" where
  "grayscale_step pageConfig = (if is_grayscale pageConfig then [Grayscale] else [])"

definition saturation_step :: "page_config \<Rightarrow> sharp_op list" where
  "saturation_step pageConfig =
     (if saturation pageConfig \<noteq> 1 then [Modulate (saturation pageConfig)] else [])"

definition contrast_step :: "page_config \<Rightarrow> sharp_op list" where
  "contrast_step pageConfig =
     (if contrast pageConfig \<noteq> 1
      then [Linear (contrast pageConfig) (- (128 * contrast pageConfig) + 128)]
      else [])"

text \<open>\<^verbatim>\<open>parseInt(level) / 100\<close>, with \<open>NaN\<close> as \<open>None\<close>.\<close>

definition level_fraction :: "string \<Rightarrow> real option" where
  "level_fraction l = map_option (\<lambda>p. real_of_int p / 100) (parseInt l)"

text \<open>Comparisons with \<open>NaN\<close> are false.\<close>

definition num_gt :: "real option \<Rightarrow> real \<Rightarrow> bool" where
  "num_gt x y = (case x of None \<Rightarrow> False | Some v \<Rightarrow> v > y)"

definition num_lt :: "real option \<Rightarrow> real \<Rightarrow> bool" where
  "num_lt x y = (case x of None \<Rightarrow> False | Some v \<Rightarrow> v < y)"

definition level_linear :: "real option \<Rightarrow> real option \<Rightarrow> sharp_op" where
  "level_linear bl wl =
     (case (bl, wl) of
        (Some b, Some w) \<Rightarrow>
          (let inputMin = math_round (b * 255);
               inputMax = math_round (w * 255)
           in if inputMax - inputMin = 0 then LinearNonFinite
              else (let multiplier = 255 / real_of_int (inputMax - inputMin);
                        offset = - real_of_int inputMin * multiplier
                    in Linear multiplier offset))
      | _ \<Rightarrow> LinearNonFinite)"

definition level_step :: "page_config \<Rightarrow> sharp_op list" where
  "level_step pageConfig =
     (if blackLevel pageConfig \<noteq> ''0%'' \<or> whiteLevel pageConfig \<noteq> ''100%''
      then (let bl = level_fraction (blackLevel pageConfig);
                wl = level_fraction (whiteLevel pageConfig)
            in if num_gt bl 0 \<or> num_lt wl 1 then [level_linear bl wl] else [])
      else [])"

definition dither_step :: "page_config \<Rightarrow> sharp_op list" where
  "dither_step pageConfig = (if dither pageConfig then [Sharpen 0.5] else [])"

definition encode_step :: "page_config \<Rightarrow> sharp_op list" where
  "encode_step pageConfig =
     (if is_grayscale pageConfig then [ToColorspace ''b-w'', Png 9 (Some False)]
      else [Png 9 None])"

definition convert_ops :: "page_config \<Rightarrow> sharp_op list" where
  "convert_ops pageConfig =
     gamma_step pageConfig @ rotate_step pageConfig @ grayscale_step pageConfig
     @ saturation_step pageConfig @ contrast_step pageConfig @ level_step pageConfig
     @ dither_step pageConfig @ encode_step pageConfig"

text \<open>The format written by the encoder that ends a chain.\<close>

fun output_format :: "sharp_op list \<Rightarrow> string option" where
  "output_format [] = None"
| "output_format (Png c p # ops) =
     (case output_format ops of None \<Rightarrow> Some ''png'' | Some f \<Rightarrow> Some f)"
| "output_format (x # ops) = output_format ops"

text \<open>
  The effect on one channel value of a chain that consists of \<^verbatim>\<open>.linear(a, b)\<close> calls
  only: \<open>a * input + b\<close> each, before the library clamps to the pixel range. Other
  calls have no model here (\<open>None\<close>).
\<close>

fun linear_value :: "sharp_op list \<Rightarrow> real \<Rightarrow> real option" where
  "linear_value [] x = Some x"
| "linear_value (Linear a b # ops) x = linear_value ops (a * x + b)"
| "linear_value (y # ops) x = None"

text \<open>
  The calls of \<^verbatim>\<open>.linear\<close> that a chain makes, in their order: what the post-processor
  asks the library to do to the channel values, apart from its other operations.
\<close>

fun linear_calls :: "sharp_op list \<Rightarrow> sharp_op list" where
  "linear_calls [] = []"
| "linear_calls (Linear a b # ops) = Linear a b # linear_calls ops"
| "linear_calls (LinearNonFinite # ops) = LinearNonFinite # linear_calls ops"
| "linear_calls (x # ops) = linear_calls ops"


section \<open>Files, process state and the outside world\<close>

datatype errno = ENOENT | EACCES | EISDIR | ENOTDIR | EIO

datatype entry =
    Missing
  | File (content: string) (mtime: nat)
  | Directory
  | Faulty errno

text \<open>\<open>Faulty e\<close> is a path on which every operation fails with \<open>e\<close>.\<close>

type_synonym fsys = "string \<Rightarrow> entry"

record file_stat =
  isFile :: bool
  st_mtime :: nat

definition fs_stat :: "fsys \<Rightarrow> string \<Rightarrow> errno + file_stat" where
  "fs_stat fs p =
     (case fs p of
        Missing \<Rightarrow> Inl ENOENT
      | File c m \<Rightarrow> Inr \<lparr> isFile = True, st_mtime = m \<rparr>
      | Directory \<Rightarrow> Inr \<lparr> isFile = False, st_mtime = 0 \<rparr>
      | Faulty e \<Rightarrow> Inl e)"

definition fs_readFile :: "fsys \<Rightarrow> string \<Rightarrow> errno + string" where
  "fs_readFile fs p =
     (case fs p of
        Missing \<Rightarrow> Inl ENOENT
      | File c m \<Rightarrow> Inr c
      | Directory \<Rightarrow> Inl EISDIR
      | Faulty e \<Rightarrow> Inl e)"

definition fs_access :: "fsys \<Rightarrow> string \<Rightarrow> errno + unit" where
  "fs_access fs p =
     (case fs p of
        Missing \<Rightarrow> Inl ENOENT
      | File c m \<Rightarrow> Inr ()
      | Directory \<Rightarrow> Inr ()
      | Faulty e \<Rightarrow> Inl e)"

definition fs_unlink :: "fsys \<Rightarrow> string \<Rightarrow> errno + fsys" where
  "fs_unlink fs p =
     (case fs p of
        Missing \<Rightarrow> Inl ENOENT
      | File c m \<Rightarrow> Inr (fs(p := Missing))
      | Directory \<Rightarrow> Inl EISDIR
      | Faulty e \<Rightarrow> Inl e)"

definition fs_writeFile :: "fsys \<Rightarrow> string \<Rightarrow> string \<Rightarrow> nat \<Rightarrow> errno + fsys" where
  "fs_writeFile fs p c t =
     (case fs p of
        Missing \<Rightarrow> Inr (fs(p := File c t))
      | File c0 m \<Rightarrow> Inr (fs(p := File c t))
      | Directory \<Rightarrow> Inl EISDIR
      | Faulty e \<Rightarrow> Inl e)"

record battery =
  batteryLevel :: "int option"
  isCharging :: bool

datatype log_event =
    LogStartupError startup_error
  | LogInvalidRequest "int option"
  | LogImageAccessed int
  | LogImageError errno
  | LogNewBatteryLevel int int
  | LogStartedCharging int
  | LogStoppedCharging int
  | LogRendering string
  | LogRenderFailed string
  | LogRendered string
  | LogConverting string
  | LogFinished string
  | LogFailed string
  | LogBlockedSuspicious string
  | LogBlockedTraversal string
  | LogConfigAccessed string
  | LogConfigNotFound string
  | LogConfigError string

record webhook_post =
  post_pageIndex :: nat
  post_url :: string
  post_body :: battery

record state =
  files :: fsys
  batteryStore :: "nat \<Rightarrow> battery option"
  logs :: "log_event list"
  posts :: "webhook_post list"

definition log :: "log_event \<Rightarrow> state \<Rightarrow> state" where
  "log e s = s\<lparr> logs := logs s @ [e] \<rparr>"

text \<open>
  What one render cycle meets outside the process: whether the browser starts and logs
  in, whether the output directory can be made, what the browser captures for a URL
  (\<open>None\<close> when any step of the capture fails), what the image library does for a
  chain and an input, whether an HTTP request to a URL can be started, and the time.

  The image library writes to the output path itself. \<open>Written out\<close>: it succeeds and
  the file holds \<open>out\<close>. \<open>Failed None\<close>: it fails before it touches the output.
  \<open>Failed (Some part)\<close>: it fails after it has written \<open>part\<close> there.
\<close>

datatype sharp_result = Written string | Failed "string option"

record render_env =
  launch_ok :: bool
  ensureDir :: "string \<Rightarrow> errno option"
  screenshot :: "string \<Rightarrow> page_config \<Rightarrow> screen_size \<Rightarrow> clip_rect \<Rightarrow> string option"
  sharp_toFile :: "sharp_op list \<Rightarrow> string \<Rightarrow> sharp_result"
  http_request :: "string \<Rightarrow> bool"
  clock :: nat

datatype exn = FsError errno | SharpError | BrowserError | RequestError


section \<open>Paths (the POSIX functions of the path module)\<close>

definition isAbsolute :: "string \<Rightarrow> bool" where
  "isAbsolute p = (case p of [] \<Rightarrow> False | c # _ \<Rightarrow> c = CHR ''/'')"

fun split_slash :: "string \<Rightarrow> string list" where
  "split_slash [] = [[]]"
| "split_slash (c # cs) =
     (if c = CHR ''/'' then [] # split_slash cs
      else (case split_slash cs of
              [] \<Rightarrow> [[c]]
            | x # xs \<Rightarrow> (c # x) # xs))"

fun join_slash :: "string list \<Rightarrow> string" where
  "join_slash [] = []"
| "join_slash [x] = x"
| "join_slash (x # y # zs) = x @ ''/'' @ join_slash (y # zs)"

text \<open>Normalisation keeps a stack of segments (top first): empty and \<^verbatim>\<open>.\<close> segments
  are dropped, \<^verbatim>\<open>..\<close> pops a segment, and is kept only above the start of a relative
  path.\<close>

fun norm_segments :: "bool \<Rightarrow> string list \<Rightarrow> string list \<Rightarrow> string list" where
  "norm_segments allowAbove [] st = rev st"
| "norm_segments allowAbove (seg # segs) st =
     (if seg = [] \<or> seg = ''.'' then norm_segments allowAbove segs st
      else if seg = ''..'' then
        (case st of
           [] \<Rightarrow> norm_segments allowAbove segs (if allowAbove then [''..''] else [])
         | t # ts \<Rightarrow>
             if t \<noteq> ''..'' then norm_segments allowAbove segs ts
             else norm_segments allowAbove segs (if allowAbove then ''..'' # st else st))
      else norm_segments allowAbove segs (seg # st))"

text \<open>\<^verbatim>\<open>path.resolve\<close> reads its arguments from the right, then the working directory,
  until the path is absolute. The list is given in that order.\<close>

fun resolve_collect :: "string list \<Rightarrow> string \<Rightarrow> string \<times> bool" where
  "resolve_collect [] acc = (acc, False)"
| "resolve_collect (p # ps) acc =
     (if p = [] then resolve_collect ps acc
      else if isAbsolute p then (p @ ''/'' @ acc, True)
      else resolve_collect ps (p @ ''/'' @ acc))"

definition path_resolve :: "string \<Rightarrow> string list \<Rightarrow> string" where
  "path_resolve cwd args =
     (let (raw, absolute) = resolve_collect (rev args @ [cwd]) [];
          resolvedPath = join_slash (norm_segments (\<not> absolute) (split_slash raw) [])
      in if absolute then ''/'' @ resolvedPath
         else if resolvedPath = [] then ''.'' else resolvedPath)"

definition path_dirname :: "string \<Rightarrow> string" where
  "path_dirname p =
     (if p = [] then ''.''
      else (let hasRoot = isAbsolute p;
                r = dropWhile (\<lambda>c. c \<noteq> CHR ''/'')
                      (dropWhile (\<lambda>c. c = CHR ''/'') (rev (tl p)))
            in if r = [] then (if hasRoot then ''/'' else ''.'')
               else if hasRoot \<and> length r = 1 then ''//''
               else take (length r) p))"

definition basename_part :: "string \<Rightarrow> string" where
  "basename_part p =
     rev (takeWhile (\<lambda>c. c \<noteq> CHR ''/'') (dropWhile (\<lambda>c. c = CHR ''/'') (rev p)))"

definition path_extname :: "string \<Rightarrow> string" where
  "path_extname p =
     (let b = basename_part p;
          after = takeWhile (\<lambda>c. c \<noteq> CHR ''.'') (rev b)
      in if CHR ''.'' \<notin> set b \<or> b = ''..'' then []
         else (let startDot = length b - length after - 1
               in if startDot = 0 then [] else drop startDot b))"

definition lower_char :: "char \<Rightarrow> char" where
  "lower_char c =
     (let n = (of_char c :: nat) in if 65 \<le> n \<and> n \<le> 90 then char_of (n + 32) else c)"

definition toLowerCase :: "string \<Rightarrow> string" where
  "toLowerCase s = map lower_char s"


section \<open>Rendering (renderUrlToImageAsync, renderAndConvertAsync)\<close>

text \<open>The capture catches every exception of its sequence and logs it; closing the page
  is guarded the same way. So the function always returns, and a failed capture shows
  only in the log and in the file that was not written. A capture writes the whole
  screenshot or nothing.\<close>

definition renderUrlToImageAsync ::
  "render_env \<Rightarrow> page_config \<Rightarrow> string \<Rightarrow> string \<Rightarrow> state \<Rightarrow> state" where
  "renderUrlToImageAsync env pageConfig url path s =
     (let sz = effective_size pageConfig
      in case screenshot env url pageConfig sz (screenshot_clip sz) of
           None \<Rightarrow> log (LogRenderFailed url) s
         | Some png \<Rightarrow>
             (case fs_writeFile (files s) path png (clock env) of
                Inl e \<Rightarrow> log (LogRenderFailed url) s
              | Inr fs' \<Rightarrow> log (LogRendered url) (s\<lparr> files := fs' \<rparr>)))"

text \<open>The conversion reads the input when the file is written, and the library writes
  straight to the output path: the result is the exception raised, if any, and the file
  system left behind, which after a failure may hold a partly written output file.\<close>

definition convertImageToKindleCompatiblePngAsync ::
  "render_env \<Rightarrow> page_config \<Rightarrow> string \<Rightarrow> string \<Rightarrow> fsys \<Rightarrow> exn option \<times> fsys" where
  "convertImageToKindleCompatiblePngAsync env pageConfig inputPath outPath fs =
     (case fs_readFile fs inputPath of
        Inl e \<Rightarrow> (Some (FsError e), fs)
      | Inr input \<Rightarrow>
          (case sharp_toFile env (convert_ops pageConfig) input of
             Written out \<Rightarrow>
               (case fs_writeFile fs outPath out (clock env) of
                  Inl e \<Rightarrow> (Some (FsError e), fs)
                | Inr fs' \<Rightarrow> (None, fs'))
           | Failed None \<Rightarrow> (Some SharpError, fs)
           | Failed (Some part) \<Rightarrow>
               (case fs_writeFile fs outPath part (clock env) of
                  Inl e \<Rightarrow> (Some SharpError, fs)
                | Inr fs' \<Rightarrow> (Some SharpError, fs'))))"

text \<open>\<^verbatim>\<open>fs.unlink\<close> whose failure is ignored.\<close>

definition unlink_quiet :: "fsys \<Rightarrow> string \<Rightarrow> fsys" where
  "unlink_quiet fs p = (case fs_unlink fs p of Inl e \<Rightarrow> fs | Inr fs' \<Rightarrow> fs')"

definition artifact_path :: "page_config \<Rightarrow> string" where
  "artifact_path pageConfig = outputPath pageConfig @ ''.'' @ imageFormat pageConfig"

definition temp_path :: "page_config \<Rightarrow> string" where
  "temp_path pageConfig = artifact_path pageConfig @ ''.temp''"

text \<open>The \<^verbatim>\<open>try\<close> block after the capture, with its \<^verbatim>\<open>catch\<close>: the conversion is
  tried whenever a file is at the temporary path, and the \<^verbatim>\<open>catch\<close> removes only the
  temporary file. After a conversion the temporary file is removed without waiting for
  the result; the removal is taken to happen at once.\<close>

definition convert_or_cleanup ::
  "render_env \<Rightarrow> page_config \<Rightarrow> string \<Rightarrow> state \<Rightarrow> state" where
  "convert_or_cleanup env pageConfig url s =
     (let outPath = artifact_path pageConfig;
          tempPath = temp_path pageConfig;
          failed = (\<lambda>s1. (log (LogFailed url) s1)\<lparr> files := unlink_quiet (files s1) tempPath \<rparr>)
      in case fs_access (files s) tempPath of
           Inl e \<Rightarrow> failed s
         | Inr u \<Rightarrow>
             (let s1 = log (LogConverting url) s
              in case convertImageToKindleCompatiblePngAsync env pageConfig tempPath
                        outPath (files s1) of
                   (Some e, fs') \<Rightarrow> failed (s1\<lparr> files := fs' \<rparr>)
                 | (None, fs') \<Rightarrow>
                     log (LogFinished url) (s1\<lparr> files := unlink_quiet fs' tempPath \<rparr>)))"

text \<open>The request is made synchronously, outside every \<^verbatim>\<open>try\<close>: when it cannot be
  started (the URL is not valid for the chosen protocol) the exception leaves the
  function; its later errors are only logged.\<close>

definition sendBatteryLevelToHomeAssistant ::
  "render_env \<Rightarrow> config \<Rightarrow> nat \<Rightarrow> battery \<Rightarrow> string \<Rightarrow> state \<Rightarrow> exn + state" where
  "sendBatteryLevelToHomeAssistant env cfg pageIndex b hook s =
     (let url = baseUrl cfg @ ''/api/webhook/'' @ hook
      in if http_request env url
         then Inr (s\<lparr> posts := posts s @
                 [\<lparr> post_pageIndex = pageIndex, post_url = url, post_body = b \<rparr>] \<rparr>)
         else Inl RequestError)"

definition relay_battery ::
  "render_env \<Rightarrow> config \<Rightarrow> nat \<Rightarrow> page_config \<Rightarrow> battery option \<Rightarrow> state \<Rightarrow> exn + state" where
  "relay_battery env cfg pageIndex pageConfig pageBatteryStore s =
     (case pageBatteryStore of
        None \<Rightarrow> Inr s
      | Some b \<Rightarrow>
          (case batteryWebHook pageConfig of
             None \<Rightarrow> Inr s
           | Some hook \<Rightarrow>
               if batteryLevel b \<noteq> None \<and> hook \<noteq> []
               then sendBatteryLevelToHomeAssistant env cfg pageIndex b hook s
               else Inr s))"

text \<open>One pass of the loop body: the exception that leaves it, if any, and the state
  it leaves behind. Making the output directory and relaying the battery level are
  outside every \<^verbatim>\<open>try\<close>: their failure leaves the loop.\<close>

definition render_page :: "render_env \<Rightarrow> config \<Rightarrow> nat \<Rightarrow> state \<Rightarrow> exn option \<times> state" where
  "render_page env cfg pageIndex s =
     (let pageConfig = pages cfg ! pageIndex;
          pageBatteryStore = batteryStore s pageIndex;
          url = baseUrl cfg @ screenShotUrl pageConfig;
          outPath = artifact_path pageConfig
      in case ensureDir env (path_dirname outPath) of
           Some e \<Rightarrow> (Some (FsError e), s)
         | None \<Rightarrow>
             (let s1 = log (LogRendering url) s;
                  s2 = renderUrlToImageAsync env pageConfig url (temp_path pageConfig) s1;
                  s3 = convert_or_cleanup env pageConfig url s2
              in case relay_battery env cfg pageIndex pageConfig pageBatteryStore s3 of
                   Inl e \<Rightarrow> (Some e, s3)
                 | Inr s4 \<Rightarrow> (None, s4)))"

function render_loop :: "render_env \<Rightarrow> config \<Rightarrow> nat \<Rightarrow> state \<Rightarrow> exn option \<times> state" where
  "render_loop env cfg pageIndex s =
     (if pageIndex < length (pages cfg)
      then (case render_page env cfg pageIndex s of
              (Some e, s') \<Rightarrow> (Some e, s')
            | (None, s') \<Rightarrow> render_loop env cfg (Suc pageIndex) s')
      else (None, s))"
  by pat_completeness auto
termination
  by (relation "measure (\<lambda>(env, cfg, pageIndex, s). length (pages cfg) - pageIndex)") auto

declare render_loop.simps [simp del]

text \<open>\<open>existingBrowser\<close> tells whether a browser was passed in; without one the cycle
  starts its own, and a failure to start it ends the cycle before the loop.\<close>

definition renderAndConvertAsync ::
  "render_env \<Rightarrow> config \<Rightarrow> bool \<Rightarrow> state \<Rightarrow> exn option \<times> state" where
  "renderAndConvertAsync env cfg existingBrowser s =
     (if \<not> existingBrowser \<and> \<not> launch_ok env then (Some BrowserError, s)
      else render_loop env cfg 0 s)"


section \<open>The HTTP server\<close>

record request =
  req_pathname :: string
  searchParams :: "(string \<times> string) list"

datatype header =
    ContentType string
  | ContentLength nat
  | LastModified nat
  | CacheControl string

record response =
  status :: nat
  headers :: "header list"
  body :: string

definition respond :: "nat \<Rightarrow> string \<Rightarrow> response" where
  "respond code text = \<lparr> status = code, headers = [], body = text \<rparr>"

subsection \<open>Image requests (handleImageRequest)\<close>

definition charging_on :: "string option \<Rightarrow> bool" where
  "charging_on v = (v = Some ''Yes'' \<or> v = Some ''1'')"

definition charging_off :: "string option \<Rightarrow> bool" where
  "charging_off v = (v = Some ''No'' \<or> v = Some ''0'')"

definition level_ok :: "int option \<Rightarrow> bool" where
  "level_ok lvl = (case lvl of None \<Rightarrow> False | Some b \<Rightarrow> b \<ge> 0 \<and> b \<le> 100)"

text \<open>The part of the handler after the response is sent: the entry of the page is
  made when it is missing, then updated from the query. The result is the new entry and
  what was logged.\<close>

definition update_battery ::
  "int \<Rightarrow> int option \<Rightarrow> string option \<Rightarrow> battery option \<Rightarrow> battery \<times> log_event list" where
  "update_battery pageNumber lvl chg stored =
     (let e0 = (case stored of
                  None \<Rightarrow> \<lparr> batteryLevel = None, isCharging = False \<rparr>
                | Some e \<Rightarrow> e)
      in if level_ok lvl
         then (let (e1, l1) =
                     (if lvl \<noteq> batteryLevel e0
                      then (e0\<lparr> batteryLevel := lvl \<rparr>, [LogNewBatteryLevel (the lvl) pageNumber])
                      else (e0, []));
                   (e2, l2) =
                     (if charging_on chg \<and> isCharging e1 \<noteq> True
                      then (e1\<lparr> isCharging := True \<rparr>, [LogStartedCharging pageNumber])
                      else if charging_off chg \<and> isCharging e1 \<noteq> False
                      then (e1\<lparr> isCharging := False \<rparr>, [LogStoppedCharging pageNumber])
                      else (e1, []))
               in (e2, l1 @ l2))
         else (e0, []))"

definition parse_pageNumber :: "string \<Rightarrow> int option" where
  "parse_pageNumber pageNumberStr =
     (if pageNumberStr = ''/'' then Some 1 else parseInt (drop 1 pageNumberStr))"

definition invalid_page :: "config \<Rightarrow> int option \<Rightarrow> bool" where
  "invalid_page cfg pageNumber =
     (case pageNumber of
        None \<Rightarrow> True
      | Some n \<Rightarrow> n > int (length (pages cfg)) \<or> n < 1)"

definition image_not_found :: "int \<Rightarrow> errno \<Rightarrow> state \<Rightarrow> response \<times> state" where
  "image_not_found n e s =
     (respond 404 ''Image not found'', log (LogImageError e) (log (LogImageAccessed n) s))"

definition handleImageRequest :: "config \<Rightarrow> request \<Rightarrow> state \<Rightarrow> response \<times> state" where
  "handleImageRequest cfg req s =
     (let lvl = parseInt_param (map_of (searchParams req) ''batteryLevel'');
          chg = map_of (searchParams req) ''isCharging'';
          pageNumber = parse_pageNumber (req_pathname req)
      in if invalid_page cfg pageNumber
         then (respond 400 ''Invalid request'', log (LogInvalidRequest pageNumber) s)
         else (let n = the pageNumber;
                   pageIndex = nat (n - 1);
                   configPage = pages cfg ! pageIndex;
                   outputPathWithExtension = artifact_path configPage
               in case fs_readFile (files s) outputPathWithExtension of
                    Inl e \<Rightarrow> image_not_found n e s
                  | Inr data \<Rightarrow>
                      (case fs_stat (files s) outputPathWithExtension of
                         Inl e \<Rightarrow> image_not_found n e s
                       | Inr st \<Rightarrow>
                           (let (entry', events) =
                                  update_battery n lvl chg (batteryStore s pageIndex)
                            in (\<lparr> status = 200,
                                   headers = [ContentType (''image/'' @ imageFormat configPage),
                                              ContentLength (length data),
                                              LastModified (st_mtime st)],
                                   body = data \<rparr>,
                                s\<lparr> batteryStore := (batteryStore s)(pageIndex := Some entry'),
                                   logs := logs s @ [LogImageAccessed n] @ events \<rparr>)))))"

subsection \<open>Configuration files (handleConfigFileRequest, getContentType)\<close>

definition getContentType :: "string \<Rightarrow> string" where
  "getContentType ext =
     (case map_of
        [(''.txt'', ''text/plain''), (''.json'', ''application/json''),
         (''.xml'', ''application/xml''), (''.html'', ''text/html''),
         (''.css'', ''text/css''), (''.js'', ''application/javascript''),
         (''.sh'', ''text/plain''), (''.conf'', ''text/plain''),
         (''.ini'', ''text/plain''), (''.cfg'', ''text/plain''),
         (''.yaml'', ''text/yaml''), (''.yml'', ''text/yaml'')] ext of
        None \<Rightarrow> ''application/octet-stream''
      | Some t \<Rightarrow> t)"

text \<open>
  \<^verbatim>\<open>decodeURIComponent\<close> on byte strings: \<^verbatim>\<open>%XX\<close> becomes the byte; a byte of 128 or
  more must start a well-formed UTF-8 sequence whose other bytes are escaped too. A
  malformed escape raises \<^verbatim>\<open>URIError\<close> (\<open>None\<close>).
\<close>

fun read_escape :: "string \<Rightarrow> (nat \<times> string) option" where
  "read_escape (c # h1 # h2 # rest) =
     (if c = CHR ''%'' then
        (case (digit_of h1, digit_of h2) of
           (Some a, Some b) \<Rightarrow> Some (16 * a + b, rest)
         | _ \<Rightarrow> None)
      else None)"
| "read_escape _ = None"

fun read_escapes :: "nat \<Rightarrow> string \<Rightarrow> (nat list \<times> string) option" where
  "read_escapes 0 s = Some ([], s)"
| "read_escapes (Suc k) s =
     (case read_escape s of
        None \<Rightarrow> None
      | Some (b, r) \<Rightarrow>
          (case read_escapes k r of
             None \<Rightarrow> None
           | Some (bs, r') \<Rightarrow> Some (b # bs, r')))"

definition utf8_len :: "nat \<Rightarrow> nat" where
  "utf8_len b =
     (if b < 0x80 then 0 else if b < 0xC0 then 1 else if b < 0xE0 then 2
      else if b < 0xF0 then 3 else if b < 0xF8 then 4 else 5)"

definition utf8_cont :: "nat \<Rightarrow> bool" where
  "utf8_cont b = (0x80 \<le> b \<and> b \<le> 0xBF)"

fun utf8_valid :: "nat list \<Rightarrow> bool" where
  "utf8_valid [b0, b1] = (0xC2 \<le> b0 \<and> b0 \<le> 0xDF \<and> utf8_cont b1)"
| "utf8_valid [b0, b1, b2] =
     (utf8_cont b2 \<and>
      (if b0 = 0xE0 then 0xA0 \<le> b1 \<and> b1 \<le> 0xBF
       else if b0 = 0xED then 0x80 \<le> b1 \<and> b1 \<le> 0x9F
       else 0xE1 \<le> b0 \<and> b0 \<le> 0xEF \<and> utf8_cont b1))"
| "utf8_valid [b0, b1, b2, b3] =
     (utf8_cont b2 \<and> utf8_cont b3 \<and>
      (if b0 = 0xF0 then 0x90 \<le> b1 \<and> b1 \<le> 0xBF
       else if b0 = 0xF4 then 0x80 \<le> b1 \<and> b1 \<le> 0x8F
       else 0xF1 \<le> b0 \<and> b0 \<le> 0xF3 \<and> utf8_cont b1))"
| "utf8_valid _ = False"

lemma read_escape_shorter: "read_escape s = Some (b, r) \<Longrightarrow> length r < length s"
  by (induction s rule: read_escape.induct) (auto split: if_splits option.splits)

lemma read_escapes_shorter: "read_escapes k s = Some (bs, r) \<Longrightarrow> length r \<le> length s"
proof (induction k arbitrary: s bs r)
  case 0
  then show ?case by simp
next
  case (Suc k)
  then show ?case
    by (fastforce split: option.splits dest: read_escape_shorter)
qed

function decodeURIComponent :: "string \<Rightarrow> string option" where
  "decodeURIComponent [] = Some []"
| "decodeURIComponent (c # cs) =
     (if c \<noteq> CHR ''%'' then map_option ((#) c) (decodeURIComponent cs)
      else (case read_escape (c # cs) of
              None \<Rightarrow> None
            | Some (b, r) \<Rightarrow>
                if b < 0x80 then map_option ((#) (char_of b)) (decodeURIComponent r)
                else if utf8_len b < 2 \<or> 4 < utf8_len b then None
                else (case read_escapes (utf8_len b - 1) r of
                        None \<Rightarrow> None
                      | Some (bs, r') \<Rightarrow>
                          if utf8_valid (b # bs)
                          then map_option ((@) (map char_of (b # bs))) (decodeURIComponent r')
                          else None)))"
  by pat_completeness auto
termination
proof (relation "measure length", goal_cases)
  case 1
  show ?case by simp
next
  case (2 c cs)
  then show ?case by simp
next
  case (3 c cs x b r)
  then show ?case using read_escape_shorter [of "c # cs" b r] by simp
next
  case (4 c cs x b r y bs r')
  then show ?case
    using read_escape_shorter [of "c # cs" b r] read_escapes_shorter [of "utf8_len b - 1" r bs r']
    by simp
qed

definition config_error :: "errno \<Rightarrow> string \<Rightarrow> state \<Rightarrow> response \<times> state" where
  "config_error e pathname s =
     (if e = ENOENT then (respond 404 ''File not found'', log (LogConfigNotFound pathname) s)
      else (respond 500 ''Internal server error'', log (LogConfigError pathname) s))"

text \<open>\<open>CONFIG_DIR\<close> is the root the files are served from and \<open>cwd\<close> the working
  directory of the process.\<close>

definition handleConfigFileRequest ::
  "string \<Rightarrow> string \<Rightarrow> string \<Rightarrow> state \<Rightarrow> response \<times> state" where
  "handleConfigFileRequest CONFIG_DIR cwd pathname s =
     (case decodeURIComponent (drop 8 pathname) of
        None \<Rightarrow> (respond 500 ''Internal server error'', log (LogConfigError pathname) s)
      | Some requestedPath \<Rightarrow>
          if includes_str requestedPath ''..'' \<or> includes_str requestedPath [CHR 0x5C]
             \<or> isAbsolute requestedPath
          then (respond 403 ''Forbidden: Invalid path'', log (LogBlockedSuspicious pathname) s)
          else (let fullPath = path_resolve cwd [CONFIG_DIR, requestedPath];
                    configDirResolved = path_resolve cwd [CONFIG_DIR]
                in if \<not> startsWith fullPath (configDirResolved @ ''/'')
                      \<and> fullPath \<noteq> configDirResolved
                   then (respond 403 ''Forbidden: Path traversal detected'',
                         log (LogBlockedTraversal pathname) s)
                   else (case fs_stat (files s) fullPath of
                           Inl e \<Rightarrow> config_error e pathname s
                         | Inr st \<Rightarrow>
                             if \<not> isFile st then (respond 404 ''File not found'', s)
                             else (case fs_readFile (files s) fullPath of
                                     Inl e \<Rightarrow> config_error e pathname s
                                   | Inr data \<Rightarrow>
                                       (\<lparr> status = 200,
                                          headers =
                                            [ContentType
                                               (getContentType (toLowerCase (path_extname fullPath))),
                                             ContentLength (length data),
                                             LastModified (st_mtime st),
                                             CacheControl ''public, max-age=300''],
                                          body = data \<rparr>,
                                        log (LogConfigAccessed requestedPath) s)))))"

definition httpServer ::
  "config \<Rightarrow> string \<Rightarrow> string \<Rightarrow> request \<Rightarrow> state \<Rightarrow> response \<times> state" where
  "httpServer cfg CONFIG_DIR cwd req s =
     (if startsWith (req_pathname req) ''/config/''
      then handleConfigFileRequest CONFIG_DIR cwd (req_pathname req) s
      else handleImageRequest cfg req s)"


section \<open>The process\<close>

datatype boot = Aborted startup_error | Crashed exn | Serving bool

text \<open>\<open>Serving cron\<close>: the HTTP server listens, and \<open>cron\<close> tells whether the
  recurring job was armed. In debug mode the single render is not awaited and its
  failure is not seen by the caller.\<close>

definition main :: "render_env \<Rightarrow> config \<Rightarrow> state \<Rightarrow> boot \<times> state" where
  "main env cfg s =
     (case startup_check cfg of
        Some e \<Rightarrow> (Aborted e, log (LogStartupError e) s)
      | None \<Rightarrow>
          if debug cfg then
            (if launch_ok env
             then (Serving False, snd (renderAndConvertAsync env cfg True s))
             else (Crashed BrowserError, s))
          else (case renderAndConvertAsync env cfg False s of
                  (Some e, s') \<Rightarrow> (Crashed e, s')
                | (None, s') \<Rightarrow> (Serving True, s')))"

datatype event = Http request | Cron render_env

definition system_step :: "config \<Rightarrow> string \<Rightarrow> string \<Rightarrow> state \<Rightarrow> event \<Rightarrow> state" where
  "system_step cfg CONFIG_DIR cwd s ev =
     (case ev of
        Http req \<Rightarrow> snd (httpServer cfg CONFIG_DIR cwd req s)
      | Cron env \<Rightarrow> snd (renderAndConvertAsync env cfg False s))"

definition initial_state :: "fsys \<Rightarrow> state" where
  "initial_state fs = \<lparr> files = fs, batteryStore = (\<lambda>i. None), logs = [], posts = [] \<rparr>"

text \<open>A run of the process: the startup, then any sequence of requests and timer
  firings. Nothing is served after a startup that did not reach \<open>Serving\<close>.\<close>

definition run :: "render_env \<Rightarrow> config \<Rightarrow> string \<Rightarrow> string \<Rightarrow> fsys \<Rightarrow> event list \<Rightarrow> state" where
  "run env cfg CONFIG_DIR cwd fs evs =
     (case main env cfg (initial_state fs) of
        (Serving cron, s) \<Rightarrow> foldl (system_step cfg CONFIG_DIR cwd) s evs
      | (b, s) \<Rightarrow> s)"


section \<open>The level remap as the specification words it\<close>





section \<open>Reading the battery store\<close>

text \<open>The level and the charging flag of a page as a reader of the store sees them: a
  page with no entry has no level and is not charging, as the entry made on its first
  request says.\<close>

definition stored_level :: "battery option \<Rightarrow> int option" where
  "stored_level st = (case st of None \<Rightarrow> None | Some e \<Rightarrow> batteryLevel e)"

definition stored_charging :: "battery option \<Rightarrow> bool" where
  "stored_charging st = (case st of None \<Rightarrow> False | Some e \<Rightarrow> isCharging e)"

definition battery_ok :: "battery \<Rightarrow> bool" where
  "battery_ok e = (case batteryLevel e of None \<Rightarrow> True | Some b \<Rightarrow> 0 \<le> b \<and> b \<le> 100)"


section \<open>The path checks of the configuration file handler\<close>

text \<open>The two guards of the handler, and a parent-directory segment as the
  specification words the first of them.\<close>

definition inside_root :: "string \<Rightarrow> string \<Rightarrow> string \<Rightarrow> bool" where
  "inside_root cwd CONFIG_DIR requestedPath =
     (startsWith (path_resolve cwd [CONFIG_DIR, requestedPath]) (path_resolve cwd [CONFIG_DIR] @ ''/'')
      \<or> path_resolve cwd [CONFIG_DIR, requestedPath] = path_resolve cwd [CONFIG_DIR])"

definition has_parent_segment :: "string \<Rightarrow> bool" where
  "has_parent_segment p = (''..'' \<in> set (split_slash p))"

definition suspicious :: "string \<Rightarrow> bool" where
  "suspicious requestedPath =
     (includes_str requestedPath ''..'' \<or> includes_str requestedPath [CHR 0x5C]
      \<or> isAbsolute requestedPath)"


section \<open>The outcome of a target in a render cycle\<close>

text \<open>
  What the browser captures for a target, and the entry at its artifact path after the
  target was processed with no file at its temporary path before: the new image when
  capture and conversion succeed, what the library had written when it failed midway,
  and the old entry when the capture failed or the library failed before writing.
  \<open>after_target\<close> is the file system the target leaves behind then, \<open>after_targets\<close>
  does this for a list of targets in order.
\<close>

definition captured :: "render_env \<Rightarrow> config \<Rightarrow> page_config \<Rightarrow> string option" where
  "captured env cfg p =
     screenshot env (baseUrl cfg @ screenShotUrl p) p (effective_size p)
       (screenshot_clip (effective_size p))"

definition written :: "entry \<Rightarrow> string \<Rightarrow> nat \<Rightarrow> entry" where
  "written old c t =
     (case old of
        Missing \<Rightarrow> File c t
      | File c0 m \<Rightarrow> File c t
      | Directory \<Rightarrow> Directory
      | Faulty e \<Rightarrow> Faulty e)"

definition target_entry :: "render_env \<Rightarrow> config \<Rightarrow> page_config \<Rightarrow> entry \<Rightarrow> entry" where
  "target_entry env cfg p old =
     (case captured env cfg p of
        None \<Rightarrow> old
      | Some png \<Rightarrow>
          (case sharp_toFile env (convert_ops p) png of
             Written out \<Rightarrow> written old out (clock env)
           | Failed None \<Rightarrow> old
           | Failed (Some part) \<Rightarrow> written old part (clock env)))"

definition after_target :: "render_env \<Rightarrow> config \<Rightarrow> page_config \<Rightarrow> fsys \<Rightarrow> fsys" where
  "after_target env cfg p fs =
     fs(artifact_path p := target_entry env cfg p (fs (artifact_path p)))"

fun after_targets :: "render_env \<Rightarrow> config \<Rightarrow> page_config list \<Rightarrow> fsys \<Rightarrow> fsys" where
  "after_targets env cfg [] fs = fs"
| "after_targets env cfg (p # ps) fs = after_targets env cfg ps (after_target env cfg p fs)"


section \<open>Sample configurations and requests\<close>

definition target :: "string \<Rightarrow> string \<Rightarrow> page_config" where
  "target u out = (default_page u)\<lparr> outputPath := out \<rparr>"

definition one_target :: config where
  "one_target =
     \<lparr> baseUrl = ''http://ha:8123'',
       pages = [target ''/lovelace/1'' ''output/cover''],
       debug = False \<rparr>"

definition two_targets :: config where
  "two_targets =
     \<lparr> baseUrl = ''http://ha:8123'',
       pages = [target ''/lovelace/1'' ''output/cover'', target ''/lovelace/2'' ''output/cover_2''],
       debug = False \<rparr>"

definition three_targets :: config where
  "three_targets =
     \<lparr> baseUrl = ''http://ha:8123'',
       pages = [target ''/lovelace/1'' ''output/cover'', target ''/lovelace/2'' ''output/cover_2'',
                target ''/lovelace/3'' ''output/cover_3''],
       debug = False \<rparr>"

definition no_files :: fsys where
  "no_files = (\<lambda>p. Missing)"

definition get_request :: "string \<Rightarrow> (string \<times> string) list \<Rightarrow> request" where
  "get_request p q = \<lparr> req_pathname = p, searchParams = q \<rparr>"

text \<open>A cycle in which the browser starts but every capture fails.\<close>

definition failing_env :: render_env where
  "failing_env =
     \<lparr> launch_ok = True, ensureDir = (\<lambda>d. None), screenshot = (\<lambda>u pc sz cl. None),
       sharp_toFile = (\<lambda>ops input. Failed None), http_request = (\<lambda>u. True), clock = 0 \<rparr>"

definition config_files :: fsys where
  "config_files =
     no_files(''/app/kindle-config'' := Directory,
              ''/app/kindle-config/readme.txt'' := File ''hello'' 7,
              ''/app/kindle-config/notes..txt'' := File ''notes'' 8,
              ''/app/kindle-config/secret.txt'' := Faulty EACCES)"

definition sample_env :: "(string \<Rightarrow> bool) \<Rightarrow> render_env" where
  "sample_env fails =
     \<lparr> launch_ok = True, ensureDir = (\<lambda>d. None),
       screenshot = (\<lambda>u pc sz cl. if fails u then None else Some (''shot of '' @ u)),
       sharp_toFile = (\<lambda>ops input. Written (''png of '' @ input)),
       http_request = (\<lambda>u. True), clock = 9 \<rparr>"

definition old_artifacts :: fsys where
  "old_artifacts =
     no_files(''output/cover.png'' := File ''old 1'' 1,
              ''output/cover_2.png'' := File ''old 2'' 2,
              ''output/cover_3.png'' := File ''old 3'' 3)"

definition stale_temp :: fsys where
  "stale_temp =
     no_files(''output/cover.png'' := File ''old 1'' 1,
              ''output/cover.png.temp'' := File ''stale'' 0)"

text \<open>Three targets of which the second writes to another directory, two targets that
  share one output path, and an environment in which the directory \<^verbatim>\<open>other\<close> cannot
  be made.\<close>

definition three_dirs :: config where
  "three_dirs =
     \<lparr> baseUrl = ''http://ha:8123'',
       pages = [target ''/lovelace/1'' ''output/cover'', target ''/lovelace/2'' ''other/cover_2'',
                target ''/lovelace/3'' ''output/cover_3''],
       debug = False \<rparr>"

definition shared_path :: config where
  "shared_path =
     \<lparr> baseUrl = ''http://ha:8123'',
       pages = [target ''/lovelace/1'' ''output/cover'', target ''/lovelace/2'' ''output/cover''],
       debug = False \<rparr>"

definition blocked_dir_env :: render_env where
  "blocked_dir_env =
     (sample_env (\<lambda>u. u = ''http://ha:8123/lovelace/1''))
       \<lparr> ensureDir := (\<lambda>d. if d = ''other'' then Some EACCES else None) \<rparr>"

text \<open>An environment in which the library fails after it has written a part of the
  output, and one in which no request can be started, with a target that relays the
  battery level and a store that holds one.\<close>

definition partial_write_env :: render_env where
  "partial_write_env =
     (sample_env (\<lambda>u. False)) \<lparr> sharp_toFile := (\<lambda>ops input. Failed (Some ''part'')) \<rparr>"

definition no_request_env :: render_env where
  "no_request_env = (sample_env (\<lambda>u. False)) \<lparr> http_request := (\<lambda>u. False) \<rparr>"

definition webhook_targets :: config where
  "webhook_targets =
     \<lparr> baseUrl = ''http://ha:8123'',
       pages = [(target ''/lovelace/1'' ''output/cover'')\<lparr> batteryWebHook := Some ''kindle'' \<rparr>,
                target ''/lovelace/2'' ''output/cover_2''],
       debug = False \<rparr>"

definition reported_state :: state where
  "reported_state =
     (initial_state old_artifacts)
       \<lparr> batteryStore := (\<lambda>i. None)(0 := Some \<lparr> batteryLevel = Some 42, isCharging = True \<rparr>) \<rparr>"


section \<open>Reading numbers\<close>

text \<open>White space before a number is skipped, also outside the ASCII range: a no-break
  space (the bytes C2 A0), a tab and an ideographic space (E3 80 80) before \<^verbatim>\<open>44\<close>.\<close>

lemma parseInt_skips_white_space:
  "parseInt (CHR 0xC2 # CHR 0xA0 # ''44'') = Some 44
   \<and> parseInt (CHR 0x09 # CHR 0xE3 # CHR 0x80 # CHR 0x80 # ''44%'') = Some 44
   \<and> parseInt '' -0x1F'' = Some (- 31)"
  by code_simp


section \<open>Startup validation and the capture viewport\<close>

lemma js_rem_pos_iff:
  assumes "0 < b"
  shows "(js_rem a b > 0) = (a > 0 \<and> \<not> b dvd a)"
proof (cases "a > 0")
  case True
  have "0 \<le> a mod b" using assms by simp
  then have "(0 < a mod b) = (a mod b \<noteq> 0)" by linarith
  also have "\<dots> = (\<not> b dvd a)" by (simp add: mod_eq_0_iff_dvd)
  finally show ?thesis using True assms by (simp add: js_rem_def)
next
  case False
  have "0 \<le> \<bar>a\<bar> mod \<bar>b\<bar>" using assms by simp
  then have "sgn a * (\<bar>a\<bar> mod \<bar>b\<bar>) \<le> 0"
    using False by (simp add: sgn_if mult_le_0_iff)
  then show ?thesis using False by (simp add: js_rem_def)
qed

lemma check_rotations_None:
  "(check_rotations i ps = None) = (\<forall>p \<in> set ps. \<not> js_rem (rotation p) 90 > 0)"
  by (induction ps arbitrary: i) auto

text \<open>What the validation does decide: a configuration passes exactly when it has a page
  and no page has a positive rotation that 90 does not divide.\<close>

lemma startup_check_passes_iff:
  "(startup_check cfg = None) =
     (pages cfg \<noteq> [] \<and> (\<forall>p \<in> set (pages cfg). \<not> (rotation p > 0 \<and> \<not> 90 dvd rotation p)))"
  by (simp add: startup_check_def check_rotations_None js_rem_pos_iff)

lemma main_aborts_iff:
  "(\<exists>e. fst (main env cfg s) = Aborted e) = (startup_check cfg \<noteq> None)"
  by (auto simp: main_def split: option.splits prod.splits)

text \<open>The remainder of a negative number is never positive, so no negative rotation is
  turned away.\<close>

lemma js_rem_negative: "a < 0 \<Longrightarrow> \<not> js_rem a b > 0"
proof -
  assume "a < 0"
  moreover have "0 \<le> \<bar>a\<bar> mod \<bar>b\<bar>"
    by (cases "b = 0") simp_all
  ultimately have "sgn a * (\<bar>a\<bar> mod \<bar>b\<bar>) \<le> 0"
    by (simp add: sgn_if mult_le_0_iff)
  then show ?thesis by (simp add: js_rem_def)
qed

lemma negative_rotations_pass:
  assumes "ps \<noteq> []" "\<forall>p \<in> set ps. rotation p < 0"
  shows "startup_check (cfg\<lparr> pages := ps \<rparr>) = None"
  using assms by (simp add: startup_check_def check_rotations_None js_rem_negative)

text \<open>
  Claim C3. The startup rejects a configuration with no target, and one in which some
  target's rotation is not a multiple of 90, negative values included. The code tests
  \<^verbatim>\<open>rotation % 90 > 0\<close>, and the remainder of a negative rotation is never positive: a
  single target with rotation \<open>-45\<close> passes the validation, and the startup goes on
  to render and serve whatever the browser does.
\<close>

theorem startup_accepts_rotation_minus_45:
  "js_rem (- 45) 90 = - 45
   \<and> startup_check \<lparr> baseUrl = ''http://ha:8123'',
        pages = [(default_page ''/lovelace/0'')\<lparr> rotation := - 45 \<rparr>], debug = False \<rparr> = None
   \<and> (\<forall>env s e. fst (main env \<lparr> baseUrl = ''http://ha:8123'',
        pages = [(default_page ''/lovelace/0'')\<lparr> rotation := - 45 \<rparr>], debug = False \<rparr> s)
          \<noteq> Aborted e)"
proof -
  let ?cfg = "\<lparr> baseUrl = ''http://ha:8123'',
        pages = [(default_page ''/lovelace/0'')\<lparr> rotation := - 45 \<rparr>], debug = False \<rparr>"
  have r: "js_rem (- 45) 90 = - 45" by (simp add: js_rem_def)
  have c: "startup_check ?cfg = None"
    by (simp add: startup_check_def default_page_def r)
  have "\<not> (\<exists>e. fst (main env ?cfg s) = Aborted e)" for env s
    using c by (simp only: main_aborts_iff) simp
  then show ?thesis using r c by blast
qed

text \<open>For rotations that are not negative the viewport is swapped exactly for the odd
  multiples of 90, and the clip is the viewport at the origin for every rotation.\<close>

lemma effective_size_nonneg:
  assumes "0 \<le> rotation pc"
  shows "effective_size pc =
     (if rotation pc mod 180 \<noteq> 0
      then \<lparr> width = height (renderingScreenSize pc), height = width (renderingScreenSize pc) \<rparr>
      else \<lparr> width = width (renderingScreenSize pc), height = height (renderingScreenSize pc) \<rparr>)"
proof -
  have "(js_rem (rotation pc) 180 > 0) = (rotation pc mod 180 \<noteq> 0)"
  proof (cases "rotation pc = 0")
    case True
    then show ?thesis by (simp add: js_rem_def)
  next
    case False
    with assms have "0 < rotation pc" by simp
    then show ?thesis by (simp add: js_rem_pos_iff mod_eq_0_iff_dvd)
  qed
  then show ?thesis by (simp add: effective_size_def)
qed

lemma screenshot_clip_is_viewport:
  "clip_x (screenshot_clip sz) = 0 \<and> clip_y (screenshot_clip sz) = 0
   \<and> clip_width (screenshot_clip sz) = width sz \<and> clip_height (screenshot_clip sz) = height sz"
  by (simp add: screenshot_clip_def)

lemma effective_size_negative:
  assumes "rotation pc < 0"
  shows "effective_size pc =
     \<lparr> width = width (renderingScreenSize pc), height = height (renderingScreenSize pc) \<rparr>"
  using assms by (simp add: effective_size_def js_rem_negative)

text \<open>
  Claim C4. The capture viewport swaps width and height exactly when the rotation is not
  a multiple of 180, negative rotations included, and the clip is the viewport. The code
  tests \<^verbatim>\<open>rotation % 180 > 0\<close>: a target of 600 by 800 with rotation \<open>-90\<close>, which the
  startup accepts, is captured at 600 by 800, not swapped, although \<open>-90\<close> is not a
  multiple of 180; the image is then rotated by \<open>-90\<close> all the same.
\<close>

theorem viewport_not_swapped_for_minus_90:
  "(- 90 :: int) mod 180 \<noteq> 0
   \<and> startup_check \<lparr> baseUrl = ''http://ha:8123'',
        pages = [(default_page ''/lovelace/0'')\<lparr> rotation := - 90 \<rparr>], debug = False \<rparr> = None
   \<and> effective_size ((default_page ''/lovelace/0'')\<lparr> rotation := - 90 \<rparr>)
        = \<lparr> width = 600, height = 800 \<rparr>
   \<and> screenshot_clip (effective_size ((default_page ''/lovelace/0'')\<lparr> rotation := - 90 \<rparr>))
        = \<lparr> clip_x = 0, clip_y = 0, clip_width = 600, clip_height = 800 \<rparr>
   \<and> rotate_step ((default_page ''/lovelace/0'')\<lparr> rotation := - 90 \<rparr>)
        = [Rotate (- 90) ''#ffffff'']"
  by (simp add: startup_check_def effective_size_def screenshot_clip_def rotate_step_def
        default_page_def js_rem_def)


section \<open>Image post-processing\<close>

lemma output_format_append_Png: "output_format (ops @ [Png c p]) = Some ''png''"
proof (induction ops)
  case Nil
  show ?case by simp
next
  case (Cons x ops)
  then show ?case by (cases x) simp_all
qed

text \<open>Neither the requested format nor the bit depth reaches the encoder: every chain
  ends in the PNG encoder at compression level 9, with the palette switched off in
  grayscale mode and not mentioned otherwise.\<close>

lemma encode_step_ignores_format:
  "encode_step (pc\<lparr> imageFormat := f, grayscaleDepth := d \<rparr>) = encode_step pc"
  by (simp add: encode_step_def is_grayscale_def)

lemma convert_ops_always_png: "output_format (convert_ops pc) = Some ''png''"
proof -
  obtain ops c p where "convert_ops pc = ops @ [Png c p]"
  proof (cases "is_grayscale pc")
    case True
    then have "convert_ops pc =
        (gamma_step pc @ rotate_step pc @ grayscale_step pc @ saturation_step pc
         @ contrast_step pc @ level_step pc @ dither_step pc @ [ToColorspace ''b-w''])
        @ [Png 9 (Some False)]"
      by (simp add: convert_ops_def encode_step_def)
    then show ?thesis by (rule that)
  next
    case False
    then have "convert_ops pc =
        (gamma_step pc @ rotate_step pc @ grayscale_step pc @ saturation_step pc
         @ contrast_step pc @ level_step pc @ dither_step pc) @ [Png 9 None]"
      by (simp add: convert_ops_def encode_step_def)
    then show ?thesis by (rule that)
  qed
  then show ?thesis by (simp only: output_format_append_Png)
qed

text \<open>
  Claim C1. The last step encodes to the target's requested format: PNG with a palette
  size from the bit depth, BMP or JPEG, and PNG for any other format string. The code
  never reads the format or the bit depth when it encodes: a grayscale target that asks
  for \<^verbatim>\<open>jpeg\<close> at depth 1 gets the chain of the default target, ending in
  \<^verbatim>\<open>.toColorspace('b-w').png({ compressionLevel: 9, palette: false })\<close>, and the PNG is
  written to the file named \<^verbatim>\<open>output/cover.jpeg\<close>.
\<close>

theorem encoder_is_png_for_jpeg_target:
  "convert_ops ((default_page ''/lovelace/0'')\<lparr> imageFormat := ''jpeg'', grayscaleDepth := 1 \<rparr>)
     = [Grayscale, ToColorspace ''b-w'', Png 9 (Some False)]
   \<and> output_format
       (convert_ops ((default_page ''/lovelace/0'')\<lparr> imageFormat := ''jpeg'', grayscaleDepth := 1 \<rparr>))
     = Some ''png''
   \<and> artifact_path ((default_page ''/lovelace/0'')\<lparr> imageFormat := ''jpeg'', grayscaleDepth := 1 \<rparr>)
     = ''output/cover.jpeg''"
  by (simp add: convert_ops_def gamma_step_def rotate_step_def grayscale_step_def
        saturation_step_def contrast_step_def level_step_def dither_step_def encode_step_def
        is_grayscale_def artifact_path_def default_page_def)

text \<open>A contrast read from the environment is never 0: \<^verbatim>\<open>CONTRAST=0\<close> gives the
  fallback 1, so contrast 0 reaches the step only from a page built some other way.\<close>

lemma config_contrast_never_zero: "config_contrast v \<noteq> 0"
  by (simp add: config_contrast_def number_or_def split: option.splits)

text \<open>The chain makes two kinds of \<^verbatim>\<open>.linear\<close> calls and no other: that of the contrast
  step, then that of the level step.\<close>

lemma linear_calls_append: "linear_calls (xs @ ys) = linear_calls xs @ linear_calls ys"
proof (induction xs)
  case Nil
  show ?case by simp
next
  case (Cons x xs)
  then show ?case by (cases x) simp_all
qed

lemma linear_calls_level_step: "linear_calls (level_step pc) = level_step pc"
  by (simp add: level_step_def level_linear_def Let_def split: option.splits)

lemma linear_calls_convert_ops:
  "linear_calls (convert_ops pc) = contrast_step pc @ level_step pc"
  by (simp add: convert_ops_def linear_calls_append linear_calls_level_step gamma_step_def
        rotate_step_def grayscale_step_def saturation_step_def contrast_step_def
        dither_step_def encode_step_def)

text \<open>
  Claim C8. The post-processor calls \<^verbatim>\<open>.linear(contrast, 128 - 128 * contrast)\<close> exactly
  when the contrast is not 1, before the call of the level step and as its only other
  \<^verbatim>\<open>.linear\<close> call. With the default levels it is the only one, and the chain applies
  \<open>output = input * contrast + (128 - 128 * contrast)\<close> to every channel value: the
  identity with contrast 1 (no call is made at all), and 128 for every value with
  contrast 0.
\<close>

theorem convert_ops_contrast_linear:
  "linear_calls (convert_ops pc) =
     (if contrast pc = 1 then [] else [Linear (contrast pc) (128 - 128 * contrast pc)])
     @ level_step pc
   \<and> linear_value
        (linear_calls (convert_ops (pc\<lparr> blackLevel := ''0%'', whiteLevel := ''100%'' \<rparr>))) x
       = Some (x * contrast pc + (128 - 128 * contrast pc))
   \<and> linear_calls
        (convert_ops (pc\<lparr> contrast := 1, blackLevel := ''0%'', whiteLevel := ''100%'' \<rparr>)) = []
   \<and> linear_value
        (linear_calls
           (convert_ops (pc\<lparr> contrast := 1, blackLevel := ''0%'', whiteLevel := ''100%'' \<rparr>))) x
       = Some x
   \<and> linear_calls
        (convert_ops (pc\<lparr> contrast := 0, blackLevel := ''0%'', whiteLevel := ''100%'' \<rparr>))
       = [Linear 0 128]
   \<and> linear_value
        (linear_calls
           (convert_ops (pc\<lparr> contrast := 0, blackLevel := ''0%'', whiteLevel := ''100%'' \<rparr>))) x
       = Some 128
   \<and> linear_value (contrast_step pc) x = Some (x * contrast pc + (128 - 128 * contrast pc))
   \<and> contrast_step (pc\<lparr> contrast := 1 \<rparr>) = []
   \<and> linear_value (contrast_step (pc\<lparr> contrast := 1 \<rparr>)) x = Some x
   \<and> contrast_step (pc\<lparr> contrast := 0 \<rparr>) = [Linear 0 128]
   \<and> linear_value (contrast_step (pc\<lparr> contrast := 0 \<rparr>)) x = Some 128"
proof -
  have l: "level_step (q\<lparr> blackLevel := ''0%'', whiteLevel := ''100%'' \<rparr>) = []" for q
    by (simp add: level_step_def)
  have c: "contrast_step (q\<lparr> blackLevel := bl, whiteLevel := wl \<rparr>) = contrast_step q" for q bl wl
    by (simp add: contrast_step_def)
  show ?thesis
    by (simp add: linear_calls_convert_ops l c) (simp add: contrast_step_def algebra_simps)
qed

text \<open>The default target with contrast 2: the chain makes the call \<^verbatim>\<open>.linear(2, -128)\<close>
  only, which sends 100 to 72; with contrast 1 it makes none, and with contrast 0 the
  call \<^verbatim>\<open>.linear(0, 128)\<close> sends 100 to 128.\<close>

theorem convert_ops_contrast_linear_witness:
  "linear_calls (convert_ops ((default_page ''/lovelace/0'')\<lparr> contrast := 2 \<rparr>))
     = [Linear 2 (- 128)]
   \<and> linear_value
       (linear_calls (convert_ops ((default_page ''/lovelace/0'')
          \<lparr> contrast := 2, blackLevel := ''0%'', whiteLevel := ''100%'' \<rparr>))) 100 = Some 72
   \<and> linear_calls
       (convert_ops ((default_page ''/lovelace/0'')
          \<lparr> contrast := 1, blackLevel := ''0%'', whiteLevel := ''100%'' \<rparr>)) = []
   \<and> linear_value
       (linear_calls (convert_ops ((default_page ''/lovelace/0'')
          \<lparr> contrast := 0, blackLevel := ''0%'', whiteLevel := ''100%'' \<rparr>))) 100 = Some 128"
proof -
  let ?pc = "(default_page ''/lovelace/0'')\<lparr> contrast := 2 \<rparr>"
  have l: "level_step ?pc = []" by (simp add: level_step_def default_page_def)
  have c: "contrast ?pc = 2" by simp
  note t = convert_ops_contrast_linear [of ?pc 100]
  from t have "linear_calls (convert_ops ?pc) =
     (if contrast ?pc = 1 then [] else [Linear (contrast ?pc) (128 - 128 * contrast ?pc)])
     @ level_step ?pc"
    by blast
  then have g1: "linear_calls (convert_ops ?pc) = [Linear 2 (- 128)]"
    unfolding l c by simp
  from t have "linear_value
        (linear_calls (convert_ops (?pc\<lparr> blackLevel := ''0%'', whiteLevel := ''100%'' \<rparr>))) 100
       = Some (100 * contrast ?pc + (128 - 128 * contrast ?pc))"
    by blast
  then have g2: "linear_value
        (linear_calls (convert_ops (?pc\<lparr> blackLevel := ''0%'', whiteLevel := ''100%'' \<rparr>))) 100
       = Some 72"
    unfolding c by simp
  from convert_ops_contrast_linear [of "default_page ''/lovelace/0''" 100]
  have g3: "linear_calls
       (convert_ops ((default_page ''/lovelace/0'')
          \<lparr> contrast := 1, blackLevel := ''0%'', whiteLevel := ''100%'' \<rparr>)) = []"
    and g4: "linear_value
       (linear_calls (convert_ops ((default_page ''/lovelace/0'')
          \<lparr> contrast := 0, blackLevel := ''0%'', whiteLevel := ''100%'' \<rparr>))) 100 = Some 128"
    by blast+
  from g1 g2 g3 g4 show ?thesis by simp
qed









section \<open>The battery store is touched by image requests only\<close>

lemma batteryStore_log [simp]: "batteryStore (log e s) = batteryStore s"
  by (simp add: log_def)

lemma files_log [simp]: "files (log e s) = files s"
  by (simp add: log_def)

lemma batteryStore_renderUrlToImageAsync [simp]:
  "batteryStore (renderUrlToImageAsync env pc url path s) = batteryStore s"
  by (simp add: renderUrlToImageAsync_def Let_def split: option.splits sum.splits)

lemma batteryStore_convert_or_cleanup [simp]:
  "batteryStore (convert_or_cleanup env pc url s) = batteryStore s"
  by (simp add: convert_or_cleanup_def Let_def split: sum.splits prod.splits option.splits)

lemma batteryStore_relay_battery:
  "relay_battery env cfg i pc b s = Inr s' \<Longrightarrow> batteryStore s' = batteryStore s"
  by (auto simp: relay_battery_def sendBatteryLevelToHomeAssistant_def Let_def
        split: option.splits if_splits)

lemma batteryStore_render_page:
  "batteryStore (snd (render_page env cfg i s)) = batteryStore s"
  by (auto simp: render_page_def Let_def dest: batteryStore_relay_battery
        split: option.splits sum.splits)

lemma batteryStore_render_loop:
  "batteryStore (snd (render_loop env cfg i s)) = batteryStore s"
proof (induction env cfg i s rule: render_loop.induct)
  case (1 env cfg pageIndex s)
  show ?case
  proof (cases "pageIndex < length (pages cfg)")
    case False
    then show ?thesis by (simp add: render_loop.simps [of env cfg pageIndex s])
  next
    case True
    obtain r s' where p: "render_page env cfg pageIndex s = (r, s')"
      by (cases "render_page env cfg pageIndex s")
    from batteryStore_render_page [of env cfg pageIndex s] p
    have b: "batteryStore s' = batteryStore s" by simp
    show ?thesis
    proof (cases r)
      case (Some e)
      with True p b show ?thesis by (simp add: render_loop.simps [of env cfg pageIndex s])
    next
      case None
      with True p b "1.IH" [OF True p [symmetric] None]
      show ?thesis by (simp add: render_loop.simps [of env cfg pageIndex s])
    qed
  qed
qed

lemma batteryStore_renderAndConvertAsync:
  "batteryStore (snd (renderAndConvertAsync env cfg eb s)) = batteryStore s"
  by (simp add: renderAndConvertAsync_def batteryStore_render_loop)

lemma batteryStore_handleConfigFileRequest:
  "batteryStore (snd (handleConfigFileRequest cd cwd p s)) = batteryStore s"
  by (simp add: handleConfigFileRequest_def config_error_def Let_def
        split: option.splits sum.splits)

lemma batteryStore_main: "batteryStore (snd (main env cfg s)) = batteryStore s"
proof (cases "renderAndConvertAsync env cfg False s")
  case (Pair r s')
  with batteryStore_renderAndConvertAsync [of env cfg False s]
  have "batteryStore s' = batteryStore s" by simp
  with Pair show ?thesis
    by (simp add: main_def batteryStore_renderAndConvertAsync split: option.splits)
qed


section \<open>Image requests\<close>

lemma handleImageRequest_invalid:
  assumes "invalid_page cfg (parse_pageNumber (req_pathname req))"
  shows "handleImageRequest cfg req s =
     (respond 400 ''Invalid request'',
      log (LogInvalidRequest (parse_pageNumber (req_pathname req))) s)"
  using assms by (simp add: handleImageRequest_def Let_def)

lemma handleImageRequest_unreadable:
  assumes "parse_pageNumber (req_pathname req) = Some n" "1 \<le> n" "n \<le> int (length (pages cfg))"
    and "\<And>c m. files s (artifact_path (pages cfg ! nat (n - 1))) \<noteq> File c m"
  shows "\<exists>e. handleImageRequest cfg req s = image_not_found n e s"
proof (cases "files s (artifact_path (pages cfg ! nat (n - 1)))")
  case Missing
  with assms(1-3) show ?thesis
    by (auto simp: handleImageRequest_def Let_def invalid_page_def fs_readFile_def)
next
  case (File c m)
  with assms(4) [of c m] show ?thesis by blast
next
  case Directory
  with assms(1-3) show ?thesis
    by (auto simp: handleImageRequest_def Let_def invalid_page_def fs_readFile_def)
next
  case (Faulty e)
  with assms(1-3) show ?thesis
    by (auto simp: handleImageRequest_def Let_def invalid_page_def fs_readFile_def)
qed

lemma handleImageRequest_ok:
  assumes "parse_pageNumber (req_pathname req) = Some n" "1 \<le> n" "n \<le> int (length (pages cfg))"
    and "files s (artifact_path (pages cfg ! nat (n - 1))) = File c m"
  shows "handleImageRequest cfg req s =
     (\<lparr> status = 200,
         headers = [ContentType (''image/'' @ imageFormat (pages cfg ! nat (n - 1))),
                    ContentLength (length c), LastModified m],
         body = c \<rparr>,
      s\<lparr> batteryStore := (batteryStore s)
            (nat (n - 1) := Some (fst (update_battery n
               (parseInt_param (map_of (searchParams req) ''batteryLevel''))
               (map_of (searchParams req) ''isCharging'') (batteryStore s (nat (n - 1)))))),
         logs := logs s @ [LogImageAccessed n] @ snd (update_battery n
               (parseInt_param (map_of (searchParams req) ''batteryLevel''))
               (map_of (searchParams req) ''isCharging'') (batteryStore s (nat (n - 1)))) \<rparr>)"
  using assms
  by (simp add: handleImageRequest_def Let_def invalid_page_def fs_readFile_def fs_stat_def
        split: prod.splits)

lemma batteryStore_handleImageRequest_failed:
  assumes "status (fst (handleImageRequest cfg req s)) \<noteq> 200"
  shows "batteryStore (snd (handleImageRequest cfg req s)) = batteryStore s"
  using assms
  by (auto simp: handleImageRequest_def Let_def image_not_found_def respond_def
        split: if_splits sum.splits prod.splits)

lemma update_battery_valid:
  assumes "level_ok (Some b)" "charging_on chg \<or> charging_off chg"
  shows "update_battery n (Some b) chg st =
     (\<lparr> batteryLevel = Some b, isCharging = charging_on chg \<rparr>,
      (if stored_level st \<noteq> Some b then [LogNewBatteryLevel b n] else [])
      @ (if stored_charging st \<noteq> charging_on chg
         then [if charging_on chg then LogStartedCharging n else LogStoppedCharging n]
         else []))"
proof -
  have x: "\<not> (charging_on chg \<and> charging_off chg)"
    by (auto simp: charging_on_def charging_off_def)
  show ?thesis
    using assms x
    by (cases st)
      (auto simp: update_battery_def stored_level_def stored_charging_def Let_def)
qed

lemma update_battery_invalid:
  assumes "\<not> level_ok lvl"
  shows "update_battery n lvl chg st =
     ((case st of None \<Rightarrow> \<lparr> batteryLevel = None, isCharging = False \<rparr> | Some e \<Rightarrow> e), [])"
  using assms by (simp add: update_battery_def)

lemma update_battery_ok:
  assumes "case st of None \<Rightarrow> True | Some e \<Rightarrow> battery_ok e"
  shows "battery_ok (fst (update_battery n lvl chg st))"
  using assms
  by (cases st; cases lvl)
    (auto simp: update_battery_def battery_ok_def level_ok_def Let_def split: option.splits)

text \<open>
  Claim C6. A request to \<^verbatim>\<open>/\<close> or \<^verbatim>\<open>/{n}\<close> whose parsed index is not a number, is
  0, negative or greater than the number of targets is answered 400; with a valid index
  and an artifact that cannot be read the answer is 404; otherwise it is 200 with
  content type \<^verbatim>\<open>image/{format}\<close>, the length of the file and its modification time.
  The index is what \<^verbatim>\<open>parseInt\<close> reads from the path after the first character.
\<close>

theorem image_request_status:
  "(parse_pageNumber (req_pathname req) = None
      \<or> (\<exists>k. parse_pageNumber (req_pathname req) = Some k
               \<and> (k = 0 \<or> k < 0 \<or> k > int (length (pages cfg))))
      \<longrightarrow> status (fst (handleImageRequest cfg req s)) = 400)
   \<and> (parse_pageNumber (req_pathname req) = Some n \<and> 1 \<le> n \<and> n \<le> int (length (pages cfg))
      \<longrightarrow> (case files s (artifact_path (pages cfg ! nat (n - 1))) of
             File c m \<Rightarrow>
               fst (handleImageRequest cfg req s) =
                 \<lparr> status = 200,
                   headers = [ContentType (''image/'' @ imageFormat (pages cfg ! nat (n - 1))),
                              ContentLength (length c), LastModified m],
                   body = c \<rparr>
           | _ \<Rightarrow> status (fst (handleImageRequest cfg req s)) = 404))"
proof (intro conjI impI)
  assume "parse_pageNumber (req_pathname req) = None
      \<or> (\<exists>k. parse_pageNumber (req_pathname req) = Some k
               \<and> (k = 0 \<or> k < 0 \<or> k > int (length (pages cfg))))"
  then have "invalid_page cfg (parse_pageNumber (req_pathname req))"
    by (auto simp: invalid_page_def)
  then show "status (fst (handleImageRequest cfg req s)) = 400"
    by (simp add: handleImageRequest_invalid respond_def)
next
  assume a: "parse_pageNumber (req_pathname req) = Some n \<and> 1 \<le> n \<and> n \<le> int (length (pages cfg))"
  show "case files s (artifact_path (pages cfg ! nat (n - 1))) of
             File c m \<Rightarrow>
               fst (handleImageRequest cfg req s) =
                 \<lparr> status = 200,
                   headers = [ContentType (''image/'' @ imageFormat (pages cfg ! nat (n - 1))),
                              ContentLength (length c), LastModified m],
                   body = c \<rparr>
           | _ \<Rightarrow> status (fst (handleImageRequest cfg req s)) = 404"
  proof (cases "files s (artifact_path (pages cfg ! nat (n - 1)))")
    case (File c m)
    with a show ?thesis by (simp add: handleImageRequest_ok)
  next
    case Missing
    then have "\<exists>e. handleImageRequest cfg req s = image_not_found n e s"
      using a by (intro handleImageRequest_unreadable) simp_all
    with Missing show ?thesis by (auto simp: image_not_found_def respond_def)
  next
    case Directory
    then have "\<exists>e. handleImageRequest cfg req s = image_not_found n e s"
      using a by (intro handleImageRequest_unreadable) simp_all
    with Directory show ?thesis by (auto simp: image_not_found_def respond_def)
  next
    case (Faulty e)
    then have "\<exists>e. handleImageRequest cfg req s = image_not_found n e s"
      using a by (intro handleImageRequest_unreadable) simp_all
    with Faulty show ?thesis by (auto simp: image_not_found_def respond_def)
  qed
qed

text \<open>Two targets: \<^verbatim>\<open>/3\<close>, \<^verbatim>\<open>/0\<close>, \<^verbatim>\<open>/-1\<close> and \<^verbatim>\<open>/abc\<close> are answered 400,
  \<^verbatim>\<open>/1\<close> before any render 404, and \<^verbatim>\<open>/\<close> serves the first artifact.\<close>

theorem image_request_status_witness:
  "status (fst (handleImageRequest two_targets (get_request ''/3'' []) (initial_state no_files))) = 400
   \<and> status (fst (handleImageRequest two_targets (get_request ''/0'' []) (initial_state no_files))) = 400
   \<and> status (fst (handleImageRequest two_targets (get_request ''/-1'' []) (initial_state no_files))) = 400
   \<and> status (fst (handleImageRequest two_targets (get_request ''/abc'' []) (initial_state no_files))) = 400
   \<and> status (fst (handleImageRequest two_targets (get_request ''/1'' []) (initial_state no_files))) = 404
   \<and> fst (handleImageRequest two_targets (get_request ''/'' [])
        (initial_state (no_files(''output/cover.png'' := File ''PNG'' 7))))
      = \<lparr> status = 200, headers = [ContentType ''image/png'', ContentLength 3, LastModified 7],
          body = ''PNG'' \<rparr>"
proof -
  have p: "parse_pageNumber ''/3'' = Some 3" "parse_pageNumber ''/0'' = Some 0"
    "parse_pageNumber ''/-1'' = Some (- 1)" "parse_pageNumber ''/abc'' = None"
    "parse_pageNumber ''/1'' = Some 1" "parse_pageNumber ''/'' = Some 1"
    by code_simp+
  have l: "length (pages two_targets) = 2" by (simp add: two_targets_def)
  have a: "artifact_path (pages two_targets ! 0) = ''output/cover.png''"
    by (simp add: two_targets_def target_def artifact_path_def default_page_def)
  have f: "imageFormat (pages two_targets ! 0) = ''png''"
    by (simp add: two_targets_def target_def default_page_def)
  note t = image_request_status [where cfg = two_targets and n = 1]
  from t [of "get_request ''/3'' []" "initial_state no_files"]
  have 1: "status (fst (handleImageRequest two_targets (get_request ''/3'' []) (initial_state no_files))) = 400"
    by (simp add: get_request_def p l)
  from t [of "get_request ''/0'' []" "initial_state no_files"]
  have 2: "status (fst (handleImageRequest two_targets (get_request ''/0'' []) (initial_state no_files))) = 400"
    by (simp add: get_request_def p l)
  from t [of "get_request ''/-1'' []" "initial_state no_files"]
  have 3: "status (fst (handleImageRequest two_targets (get_request ''/-1'' []) (initial_state no_files))) = 400"
    by (simp add: get_request_def p l)
  from t [of "get_request ''/abc'' []" "initial_state no_files"]
  have 4: "status (fst (handleImageRequest two_targets (get_request ''/abc'' []) (initial_state no_files))) = 400"
    by (simp add: get_request_def p l)
  from t [of "get_request ''/1'' []" "initial_state no_files"]
  have 5: "status (fst (handleImageRequest two_targets (get_request ''/1'' []) (initial_state no_files))) = 404"
    by (simp add: get_request_def p l a initial_state_def no_files_def)
  from t [of "get_request ''/'' []" "initial_state (no_files(''output/cover.png'' := File ''PNG'' 7))"]
  have 6: "fst (handleImageRequest two_targets (get_request ''/'' [])
        (initial_state (no_files(''output/cover.png'' := File ''PNG'' 7))))
      = \<lparr> status = 200, headers = [ContentType ''image/png'', ContentLength 3, LastModified 7],
          body = ''PNG'' \<rparr>"
    by (simp add: get_request_def p l a f initial_state_def)
  from 1 2 3 4 5 6 show ?thesis by blast
qed


section \<open>Battery telemetry\<close>

lemma files_handleImageRequest: "files (snd (handleImageRequest cfg req s)) = files s"
  by (simp add: handleImageRequest_def Let_def image_not_found_def
        split: sum.splits prod.splits)

text \<open>
  Claim C5, as amended. A request to the image family with a valid target index, a
  readable artifact and valid telemetry (\<^verbatim>\<open>batteryLevel\<close> an integer from 0 to 100,
  \<^verbatim>\<open>isCharging\<close> one of \<^verbatim>\<open>Yes\<close>, \<^verbatim>\<open>1\<close>, \<^verbatim>\<open>No\<close>, \<^verbatim>\<open>0\<close>) sets the entry of that index to the
  reported values; a new level and a changed charging flag are each logged once, and the
  same request again changes nothing and logs no change. Render cycles, configuration
  file requests and the startup leave the battery store as it is.
\<close>

theorem battery_update_on_served_request:
  assumes "parse_pageNumber (req_pathname req) = Some n" "1 \<le> n"
      "n \<le> int (length (pages cfg))"
    and "files s (artifact_path (pages cfg ! nat (n - 1))) = File c m"
    and "parseInt_param (map_of (searchParams req) ''batteryLevel'') = Some b"
      "0 \<le> b" "b \<le> 100"
    and "map_of (searchParams req) ''isCharging'' = Some v"
      "v = ''Yes'' \<or> v = ''1'' \<or> v = ''No'' \<or> v = ''0''"
  shows "batteryStore (snd (handleImageRequest cfg req s)) =
           (batteryStore s)(nat (n - 1) :=
              Some \<lparr> batteryLevel = Some b, isCharging = (v = ''Yes'' \<or> v = ''1'') \<rparr>)
     \<and> logs (snd (handleImageRequest cfg req s)) =
           logs s @ [LogImageAccessed n]
           @ (if stored_level (batteryStore s (nat (n - 1))) \<noteq> Some b
              then [LogNewBatteryLevel b n] else [])
           @ (if stored_charging (batteryStore s (nat (n - 1))) \<noteq> (v = ''Yes'' \<or> v = ''1'')
              then [if v = ''Yes'' \<or> v = ''1'' then LogStartedCharging n
                    else LogStoppedCharging n]
              else [])
     \<and> batteryStore (snd (handleImageRequest cfg req (snd (handleImageRequest cfg req s)))) =
           batteryStore (snd (handleImageRequest cfg req s))
     \<and> logs (snd (handleImageRequest cfg req (snd (handleImageRequest cfg req s)))) =
           logs (snd (handleImageRequest cfg req s)) @ [LogImageAccessed n]
     \<and> batteryStore (snd (renderAndConvertAsync env cfg eb s0)) = batteryStore s0
     \<and> batteryStore (snd (handleConfigFileRequest cd cwd p s0)) = batteryStore s0
     \<and> batteryStore (snd (main env cfg s0)) = batteryStore s0"
proof -
  let ?i = "nat (n - 1)"
  let ?on = "v = ''Yes'' \<or> v = ''1''"
  let ?new = "\<lparr> batteryLevel = Some b, isCharging = ?on \<rparr>"
  let ?s1 = "snd (handleImageRequest cfg req s)"
  have lv: "level_ok (Some b)" using assms(6,7) by (simp add: level_ok_def)
  have on: "charging_on (Some v) = ?on" by (simp add: charging_on_def)
  have ch: "charging_on (Some v) \<or> charging_off (Some v)"
    using assms(9) by (auto simp: charging_on_def charging_off_def)
  have u: "update_battery n (Some b) (Some v) st =
     (?new,
      (if stored_level st \<noteq> Some b then [LogNewBatteryLevel b n] else [])
      @ (if stored_charging st \<noteq> ?on
         then [if ?on then LogStartedCharging n else LogStoppedCharging n]
         else []))" for st
    using update_battery_valid [OF lv ch, of n st] by (simp only: on)
  have h: "handleImageRequest cfg req t =
     (\<lparr> status = 200,
         headers = [ContentType (''image/'' @ imageFormat (pages cfg ! ?i)),
                    ContentLength (length c), LastModified m],
         body = c \<rparr>,
      t\<lparr> batteryStore := (batteryStore t)
            (?i := Some (fst (update_battery n (Some b) (Some v) (batteryStore t ?i)))),
         logs := logs t @ [LogImageAccessed n]
            @ snd (update_battery n (Some b) (Some v) (batteryStore t ?i)) \<rparr>)"
    if "files t (artifact_path (pages cfg ! ?i)) = File c m" for t
    using handleImageRequest_ok [OF assms(1-3) that] by (simp only: assms(5) assms(8))
  have s1: "batteryStore ?s1 = (batteryStore s)(?i := Some ?new)"
    by (simp add: h [OF assms(4)] u)
  have l1: "logs ?s1 =
           logs s @ [LogImageAccessed n]
           @ (if stored_level (batteryStore s ?i) \<noteq> Some b
              then [LogNewBatteryLevel b n] else [])
           @ (if stored_charging (batteryStore s ?i) \<noteq> ?on
              then [if ?on then LogStartedCharging n else LogStoppedCharging n]
              else [])"
    by (simp add: h [OF assms(4)] u)
  have f1: "files ?s1 (artifact_path (pages cfg ! ?i)) = File c m"
    by (simp add: files_handleImageRequest assms(4))
  have st: "stored_level (batteryStore ?s1 ?i) = Some b"
    "stored_charging (batteryStore ?s1 ?i) = ?on"
    by (simp_all add: s1 stored_level_def stored_charging_def)
  have s2: "batteryStore (snd (handleImageRequest cfg req ?s1)) = batteryStore ?s1"
    by (simp add: h [OF f1] u) (simp add: s1)
  have l2: "logs (snd (handleImageRequest cfg req ?s1)) = logs ?s1 @ [LogImageAccessed n]"
    by (simp add: h [OF f1] u st)
  show ?thesis
    using s1 l1 s2 l2 batteryStore_renderAndConvertAsync [of env cfg eb s0]
      batteryStore_handleConfigFileRequest [of cd cwd p s0] batteryStore_main [of env cfg s0]
    by blast
qed


text \<open>The first request to \<^verbatim>\<open>/1?batteryLevel=42&isCharging=Yes\<close> stores level 42 and
  charging, logging both; the second logs the access only.\<close>

theorem battery_update_on_served_request_witness:
  "batteryStore (snd (handleImageRequest one_target
       (get_request ''/1'' [(''batteryLevel'', ''42''), (''isCharging'', ''Yes'')])
       (initial_state (no_files(''output/cover.png'' := File ''PNG'' 7))))) 0
     = Some \<lparr> batteryLevel = Some 42, isCharging = True \<rparr>
   \<and> logs (snd (handleImageRequest one_target
       (get_request ''/1'' [(''batteryLevel'', ''42''), (''isCharging'', ''Yes'')])
       (initial_state (no_files(''output/cover.png'' := File ''PNG'' 7)))))
     = [LogImageAccessed 1, LogNewBatteryLevel 42 1, LogStartedCharging 1]
   \<and> logs (snd (handleImageRequest one_target
       (get_request ''/1'' [(''batteryLevel'', ''42''), (''isCharging'', ''Yes'')])
       (snd (handleImageRequest one_target
          (get_request ''/1'' [(''batteryLevel'', ''42''), (''isCharging'', ''Yes'')])
          (initial_state (no_files(''output/cover.png'' := File ''PNG'' 7)))))))
     = [LogImageAccessed 1, LogNewBatteryLevel 42 1, LogStartedCharging 1, LogImageAccessed 1]"
proof -
  let ?req = "get_request ''/1'' [(''batteryLevel'', ''42''), (''isCharging'', ''Yes'')]"
  let ?s = "initial_state (no_files(''output/cover.png'' := File ''PNG'' 7))"
  have p: "parse_pageNumber (req_pathname ?req) = Some 1"
    by (simp add: get_request_def) code_simp
  have n: "(1::int) \<le> 1" "1 \<le> int (length (pages one_target))"
    by (simp_all add: one_target_def)
  have f: "files ?s (artifact_path (pages one_target ! nat (1 - 1))) = File ''PNG'' 7"
    by (simp add: one_target_def target_def default_page_def artifact_path_def initial_state_def)
  have b: "parseInt_param (map_of (searchParams ?req) ''batteryLevel'') = Some 42"
    by (simp add: get_request_def) code_simp
  have r: "(0::int) \<le> 42" "(42::int) \<le> 100" by simp_all
  have v: "map_of (searchParams ?req) ''isCharging'' = Some ''Yes''"
    by (simp add: get_request_def)
  have w: "''Yes'' = ''Yes'' \<or> ''Yes'' = ''1'' \<or> ''Yes'' = ''No'' \<or> ''Yes'' = ''0''" by simp
  note t = battery_update_on_served_request [OF p n f b r v w]
  from t have 1: "batteryStore (snd (handleImageRequest one_target ?req ?s)) 0
     = Some \<lparr> batteryLevel = Some 42, isCharging = True \<rparr>"
    by simp
  from t have 2: "logs (snd (handleImageRequest one_target ?req ?s))
     = [LogImageAccessed 1, LogNewBatteryLevel 42 1, LogStartedCharging 1]"
    by (simp add: initial_state_def stored_level_def stored_charging_def)
  from t have 3: "logs (snd (handleImageRequest one_target ?req
         (snd (handleImageRequest one_target ?req ?s))))
     = logs (snd (handleImageRequest one_target ?req ?s)) @ [LogImageAccessed 1]"
    by blast
  from 1 2 3 show ?thesis by simp
qed

text \<open>
  Claim C5 as stated fails when the artifact cannot be read: before any render has
  completed, the same request is answered 404 and no entry is made, because the update
  comes after the file is read, inside the same \<^verbatim>\<open>try\<close> block.
\<close>

theorem battery_update_skipped_without_artifact:
  "parse_pageNumber ''/1'' = Some 1
   \<and> parseInt_param (Some ''42'') = Some 42
   \<and> status (fst (handleImageRequest one_target
        (get_request ''/1'' [(''batteryLevel'', ''42''), (''isCharging'', ''Yes'')])
        (initial_state no_files))) = 404
   \<and> batteryStore (snd (handleImageRequest one_target
        (get_request ''/1'' [(''batteryLevel'', ''42''), (''isCharging'', ''Yes'')])
        (initial_state no_files))) 0 = None"
proof -
  have p: "parse_pageNumber ''/1'' = Some 1" by code_simp
  have b: "parseInt_param (Some ''42'') = Some 42" by code_simp
  have h: "handleImageRequest one_target
        (get_request ''/1'' [(''batteryLevel'', ''42''), (''isCharging'', ''Yes'')])
        (initial_state no_files)
      = image_not_found 1 ENOENT (initial_state no_files)"
    by (simp add: handleImageRequest_def Let_def get_request_def p invalid_page_def
          one_target_def fs_readFile_def initial_state_def no_files_def)
  show ?thesis
    by (simp add: p b h image_not_found_def respond_def) (simp add: initial_state_def)
qed

lemma handleImageRequest_store_cases:
  "batteryStore (snd (handleImageRequest cfg req s)) = batteryStore s
   \<or> (\<exists>i n. batteryStore (snd (handleImageRequest cfg req s)) =
         (batteryStore s)(i := Some (fst (update_battery n
            (parseInt_param (map_of (searchParams req) ''batteryLevel''))
            (map_of (searchParams req) ''isCharging'') (batteryStore s i)))))"
proof (cases "status (fst (handleImageRequest cfg req s)) = 200")
  case False
  then show ?thesis by (simp add: batteryStore_handleImageRequest_failed)
next
  case True
  let ?pn = "parse_pageNumber (req_pathname req)"
  let ?p = "artifact_path (pages cfg ! nat (the ?pn - 1))"
  from True have v: "\<not> invalid_page cfg ?pn"
    by (auto simp: handleImageRequest_def Let_def respond_def)
  then obtain n where n: "?pn = Some n" "1 \<le> n" "n \<le> int (length (pages cfg))"
    by (auto simp: invalid_page_def split: option.splits)
  have "\<exists>c m. files s ?p = File c m"
  proof (rule ccontr)
    assume "\<not> (\<exists>c m. files s ?p = File c m)"
    then have "\<exists>e. handleImageRequest cfg req s = image_not_found n e s"
      using n by (intro handleImageRequest_unreadable) simp_all
    with True show False by (auto simp: image_not_found_def respond_def)
  qed
  then obtain c m where "files s (artifact_path (pages cfg ! nat (n - 1))) = File c m"
    using n by auto
  from handleImageRequest_ok [OF n this] show ?thesis by auto
qed

lemma store_ok_handleImageRequest:
  assumes "\<And>i e. batteryStore s i = Some e \<Longrightarrow> battery_ok e"
    and "batteryStore (snd (handleImageRequest cfg req s)) i = Some e"
  shows "battery_ok e"
proof -
  let ?lvl = "parseInt_param (map_of (searchParams req) ''batteryLevel'')"
  let ?chg = "map_of (searchParams req) ''isCharging''"
  from handleImageRequest_store_cases [of cfg req s]
  show ?thesis
  proof
    assume "batteryStore (snd (handleImageRequest cfg req s)) = batteryStore s"
    with assms show ?thesis by simp
  next
    assume "\<exists>j n. batteryStore (snd (handleImageRequest cfg req s)) =
         (batteryStore s)(j := Some (fst (update_battery n ?lvl ?chg (batteryStore s j))))"
    then obtain j n where u: "batteryStore (snd (handleImageRequest cfg req s)) =
         (batteryStore s)(j := Some (fst (update_battery n ?lvl ?chg (batteryStore s j))))"
      by blast
    have "case batteryStore s j of None \<Rightarrow> True | Some e \<Rightarrow> battery_ok e"
      using assms(1) [of j] by (simp split: option.splits)
    then have "battery_ok (fst (update_battery n ?lvl ?chg (batteryStore s j)))"
      by (rule update_battery_ok)
    with u assms show ?thesis by (cases "i = j") auto
  qed
qed

lemma store_ok_system_step:
  assumes "\<And>i e. batteryStore s i = Some e \<Longrightarrow> battery_ok e"
    and "batteryStore (system_step cfg cd cwd s ev) i = Some e"
  shows "battery_ok e"
proof (cases ev)
  case (Http req)
  show ?thesis
  proof (cases "startsWith (req_pathname req) ''/config/''")
    case True
    with Http assms show ?thesis
      by (simp add: system_step_def httpServer_def batteryStore_handleConfigFileRequest)
  next
    case False
    with Http assms(2) have "batteryStore (snd (handleImageRequest cfg req s)) i = Some e"
      by (simp add: system_step_def httpServer_def)
    with assms(1) show ?thesis by (rule store_ok_handleImageRequest)
  qed
next
  case (Cron env)
  with assms show ?thesis
    by (simp add: system_step_def batteryStore_renderAndConvertAsync)
qed

lemma store_ok_foldl:
  assumes "\<And>i e. batteryStore s i = Some e \<Longrightarrow> battery_ok e"
  shows "batteryStore (foldl (system_step cfg cd cwd) s evs) i = Some e \<Longrightarrow> battery_ok e"
  using assms
proof (induction evs arbitrary: s i e)
  case Nil
  then show ?case by simp
next
  case (Cons ev evs)
  have "\<And>j d. batteryStore (system_step cfg cd cwd s ev) j = Some d \<Longrightarrow> battery_ok d"
    using Cons.prems(2) by (rule store_ok_system_step)
  with Cons.IH [of "system_step cfg cd cwd s ev" i e] Cons.prems(1) show ?case by simp
qed

lemma store_ok_run:
  "batteryStore (run env cfg cd cwd fs evs) i = Some e \<Longrightarrow> battery_ok e"
proof -
  assume a: "batteryStore (run env cfg cd cwd fs evs) i = Some e"
  obtain b s where m: "main env cfg (initial_state fs) = (b, s)" by force
  have "batteryStore s = batteryStore (initial_state fs)"
    using batteryStore_main [of env cfg "initial_state fs"] m by simp
  then have e: "batteryStore s = (\<lambda>i. None)" by (simp add: initial_state_def)
  show ?thesis
  proof (cases b)
    case (Serving cron)
    with a m have "batteryStore (foldl (system_step cfg cd cwd) s evs) i = Some e"
      by (simp add: run_def)
    moreover have "\<And>j d. batteryStore s j = Some d \<Longrightarrow> battery_ok d" by (simp add: e)
    ultimately show ?thesis by (rule store_ok_foldl [rotated])
  next
    case (Aborted x)
    with a m e show ?thesis by (simp add: run_def)
  next
    case (Crashed x)
    with a m e show ?thesis by (simp add: run_def)
  qed
qed

lemma system_step_keeps_entries:
  assumes "batteryStore s i \<noteq> None"
  shows "batteryStore (system_step cfg cd cwd s ev) i \<noteq> None"
proof (cases ev)
  case (Http req)
  show ?thesis
  proof (cases "startsWith (req_pathname req) ''/config/''")
    case True
    with Http assms show ?thesis
      by (simp add: system_step_def httpServer_def batteryStore_handleConfigFileRequest)
  next
    case False
    from handleImageRequest_store_cases [of cfg req s] assms
    have "batteryStore (snd (handleImageRequest cfg req s)) i \<noteq> None" by auto
    with Http False show ?thesis by (simp add: system_step_def httpServer_def)
  qed
next
  case (Cron env)
  with assms show ?thesis
    by (simp add: system_step_def batteryStore_renderAndConvertAsync)
qed

text \<open>
  Claim C10. A request without a valid \<^verbatim>\<open>batteryLevel\<close> leaves every stored entry as it
  was, whatever its \<^verbatim>\<open>isCharging\<close> parameter says (at most it makes the entry of its
  page, with no level and not charging). In every state the process reaches, every entry
  has no level or a level from 0 to 100, and no step removes an entry.
\<close>

theorem charging_needs_valid_level:
  "(\<not> level_ok (parseInt_param (map_of (searchParams req) ''batteryLevel'')) \<longrightarrow>
      (batteryStore (snd (handleImageRequest cfg req s)) i = batteryStore s i
       \<or> (batteryStore s i = None
           \<and> batteryStore (snd (handleImageRequest cfg req s)) i =
               Some \<lparr> batteryLevel = None, isCharging = False \<rparr>))
      \<and> stored_charging (batteryStore (snd (handleImageRequest cfg req s)) i) =
          stored_charging (batteryStore s i))
   \<and> (batteryStore (run env cfg cd cwd fs evs) i = Some e \<longrightarrow> battery_ok e)
   \<and> (batteryStore s i \<noteq> None \<longrightarrow> batteryStore (system_step cfg cd cwd s ev) i \<noteq> None)"
proof (intro conjI impI)
  let ?lvl = "parseInt_param (map_of (searchParams req) ''batteryLevel'')"
  let ?chg = "map_of (searchParams req) ''isCharging''"
  assume inv: "\<not> level_ok ?lvl"
  have u: "fst (update_battery n ?lvl ?chg st) =
      (case st of None \<Rightarrow> \<lparr> batteryLevel = None, isCharging = False \<rparr> | Some e \<Rightarrow> e)"
    for n st
    by (simp add: update_battery_invalid [OF inv])
  show c: "batteryStore (snd (handleImageRequest cfg req s)) i = batteryStore s i
       \<or> (batteryStore s i = None
           \<and> batteryStore (snd (handleImageRequest cfg req s)) i =
               Some \<lparr> batteryLevel = None, isCharging = False \<rparr>)"
  proof -
    from handleImageRequest_store_cases [of cfg req s]
    show ?thesis
    proof
      assume "batteryStore (snd (handleImageRequest cfg req s)) = batteryStore s"
      then show ?thesis by simp
    next
      assume "\<exists>j n. batteryStore (snd (handleImageRequest cfg req s)) =
         (batteryStore s)(j := Some (fst (update_battery n ?lvl ?chg (batteryStore s j))))"
      then obtain j where j: "batteryStore (snd (handleImageRequest cfg req s)) =
         (batteryStore s)(j := Some (case batteryStore s j of
              None \<Rightarrow> \<lparr> batteryLevel = None, isCharging = False \<rparr> | Some e \<Rightarrow> e))"
        by (auto simp: u)
      show ?thesis
      proof (cases "i = j")
        case False
        with j show ?thesis by simp
      next
        case True
        with j show ?thesis by (cases "batteryStore s j") simp_all
      qed
    qed
  qed
  then show "stored_charging (batteryStore (snd (handleImageRequest cfg req s)) i) =
          stored_charging (batteryStore s i)"
    by (auto simp: stored_charging_def)
next
  assume "batteryStore (run env cfg cd cwd fs evs) i = Some e"
  then show "battery_ok e" by (rule store_ok_run)
next
  assume "batteryStore s i \<noteq> None"
  then show "batteryStore (system_step cfg cd cwd s ev) i \<noteq> None"
    by (rule system_step_keeps_entries)
qed


text \<open>After level 42 and charging were stored, a request with \<^verbatim>\<open>isCharging=No\<close> alone
  leaves the entry charging, and a render cycle keeps the entry.\<close>

theorem charging_needs_valid_level_witness:
  "\<not> level_ok (parseInt_param (map_of (searchParams (get_request ''/1'' [(''isCharging'', ''No'')]))
        ''batteryLevel''))
   \<and> batteryStore (run failing_env one_target ''/app/kindle-config'' ''/app''
         (no_files(''output/cover.png'' := File ''PNG'' 7))
         [Http (get_request ''/1'' [(''batteryLevel'', ''42''), (''isCharging'', ''Yes'')])]) 0
       = Some \<lparr> batteryLevel = Some 42, isCharging = True \<rparr>
   \<and> batteryStore (snd (handleImageRequest one_target (get_request ''/1'' [(''isCharging'', ''No'')])
         (run failing_env one_target ''/app/kindle-config'' ''/app''
           (no_files(''output/cover.png'' := File ''PNG'' 7))
           [Http (get_request ''/1'' [(''batteryLevel'', ''42''), (''isCharging'', ''Yes'')])]))) 0
       = Some \<lparr> batteryLevel = Some 42, isCharging = True \<rparr>
   \<and> battery_ok \<lparr> batteryLevel = Some 42, isCharging = True \<rparr>
   \<and> batteryStore (system_step one_target ''/app/kindle-config'' ''/app''
         (run failing_env one_target ''/app/kindle-config'' ''/app''
           (no_files(''output/cover.png'' := File ''PNG'' 7))
           [Http (get_request ''/1'' [(''batteryLevel'', ''42''), (''isCharging'', ''Yes'')])])
         (Cron failing_env)) 0 \<noteq> None"
proof -
  let ?r1 = "get_request ''/1'' [(''batteryLevel'', ''42''), (''isCharging'', ''Yes'')]"
  let ?r2 = "get_request ''/1'' [(''isCharging'', ''No'')]"
  let ?fs = "no_files(''output/cover.png'' := File ''PNG'' 7)"
  let ?s1 = "run failing_env one_target ''/app/kindle-config'' ''/app'' ?fs [Http ?r1]"
  let ?e = "\<lparr> batteryLevel = Some 42, isCharging = True \<rparr>"
  have h1: "\<not> level_ok (parseInt_param (map_of (searchParams ?r2) ''batteryLevel''))"
    by code_simp
  have h2: "batteryStore ?s1 0 = Some ?e" by code_simp
  note t = charging_needs_valid_level [where cfg = one_target and i = 0 and s = ?s1
      and env = failing_env and cd = "''/app/kindle-config''" and cwd = "''/app''"
      and fs = ?fs and evs = "[Http ?r1]" and e = ?e]
  from t [of ?r2 "Cron failing_env"] h1 h2
  have c1: "batteryStore (snd (handleImageRequest one_target ?r2 ?s1)) 0 = Some ?e"
    by auto
  from t [of ?r2 "Cron failing_env"] h2 have c2: "battery_ok ?e" by blast
  from t [of ?r2 "Cron failing_env"] h2
  have c3: "batteryStore (system_step one_target ''/app/kindle-config'' ''/app'' ?s1
      (Cron failing_env)) 0 \<noteq> None"
    by simp
  from h1 h2 c1 c2 c3 show ?thesis by blast
qed


section \<open>Configuration file requests\<close>

lemma split_slash_hd:
  "\<exists>xs. split_slash s = takeWhile (\<lambda>c. c \<noteq> CHR ''/'') s # xs"
  by (induction s) (auto split: list.splits)

lemma parent_segment_includes:
  "has_parent_segment p \<Longrightarrow> includes_str p ''..''"
  unfolding has_parent_segment_def
proof (induction p)
  case Nil
  then show ?case by simp
next
  case (Cons c cs)
  obtain xs where xs: "split_slash cs = takeWhile (\<lambda>c. c \<noteq> CHR ''/'') cs # xs"
    using split_slash_hd [of cs] by blast
  show ?case
  proof (cases "c = CHR ''/''")
    case True
    with Cons.prems have "''..'' \<in> set (split_slash cs)" by simp
    then show ?thesis using Cons.IH by simp
  next
    case False
    with Cons.prems xs
    have "''..'' = c # takeWhile (\<lambda>c. c \<noteq> CHR ''/'') cs \<or> ''..'' \<in> set xs" by simp
    then show ?thesis
    proof
      assume "''..'' \<in> set xs"
      then have "''..'' \<in> set (split_slash cs)" using xs by simp
      then show ?thesis using Cons.IH by simp
    next
      assume a: "''..'' = c # takeWhile (\<lambda>c. c \<noteq> CHR ''/'') cs"
      then have "c = CHR ''.''" and t: "takeWhile (\<lambda>c. c \<noteq> CHR ''/'') cs = ''.''" by auto
      from t obtain r where "cs = CHR ''.'' # r"
        by (cases cs) (auto split: if_splits)
      with \<open>c = CHR ''.''\<close> show ?thesis by (simp add: startsWith_def)
    qed
  qed
qed

text \<open>
  Claim C7, as amended. For a request under \<^verbatim>\<open>/config/\<close>: if the decoded sub-path contains
  two dots in a row anywhere (as every parent-directory segment does), a backslash, or
  is absolute, or if the resolved path is not the root directory or below it, the answer
  is 403; otherwise a path that is missing or not a regular file gives 404, any other
  I/O error 500, and a readable file 200 with the content type of its extension
  (\<^verbatim>\<open>.txt\<close> gives \<^verbatim>\<open>text/plain\<close>) and a cache lifetime of 300 seconds. A sub-path that
  cannot be decoded is answered 500.
\<close>

theorem config_request_status:
  "(decodeURIComponent (drop 8 pathname) = None \<longrightarrow>
      status (fst (handleConfigFileRequest cd cwd pathname s)) = 500)
   \<and> (decodeURIComponent (drop 8 pathname) = Some rp \<longrightarrow>
        (has_parent_segment rp \<longrightarrow> suspicious rp)
        \<and> (suspicious rp \<or> \<not> inside_root cwd cd rp \<longrightarrow>
             status (fst (handleConfigFileRequest cd cwd pathname s)) = 403)
        \<and> (\<not> suspicious rp \<and> inside_root cwd cd rp \<longrightarrow>
             (files s (path_resolve cwd [cd, rp]) = Missing
                \<or> files s (path_resolve cwd [cd, rp]) = Directory
                \<or> files s (path_resolve cwd [cd, rp]) = Faulty ENOENT \<longrightarrow>
                status (fst (handleConfigFileRequest cd cwd pathname s)) = 404)
             \<and> (files s (path_resolve cwd [cd, rp]) = Faulty e \<and> e \<noteq> ENOENT \<longrightarrow>
                status (fst (handleConfigFileRequest cd cwd pathname s)) = 500)
             \<and> (files s (path_resolve cwd [cd, rp]) = File c m \<longrightarrow>
                fst (handleConfigFileRequest cd cwd pathname s) =
                  \<lparr> status = 200,
                    headers =
                      [ContentType
                         (getContentType (toLowerCase (path_extname (path_resolve cwd [cd, rp])))),
                       ContentLength (length c), LastModified m,
                       CacheControl ''public, max-age=300''],
                    body = c \<rparr>)))
   \<and> getContentType ''.txt'' = ''text/plain''"
proof (intro conjI impI)
  assume "decodeURIComponent (drop 8 pathname) = None"
  then show "status (fst (handleConfigFileRequest cd cwd pathname s)) = 500"
    by (simp add: handleConfigFileRequest_def respond_def)
next
  assume "has_parent_segment rp"
  then show "suspicious rp" by (simp add: suspicious_def parent_segment_includes)
next
  assume "decodeURIComponent (drop 8 pathname) = Some rp"
    and "suspicious rp \<or> \<not> inside_root cwd cd rp"
  then show "status (fst (handleConfigFileRequest cd cwd pathname s)) = 403"
    by (auto simp: handleConfigFileRequest_def respond_def suspicious_def inside_root_def Let_def)
next
  show "getContentType ''.txt'' = ''text/plain''" by (simp add: getContentType_def)
next
  assume d: "decodeURIComponent (drop 8 pathname) = Some rp"
    and ok: "\<not> suspicious rp \<and> inside_root cwd cd rp"
  let ?full = "path_resolve cwd [cd, rp]"
  have g: "\<not> (includes_str rp ''..'' \<or> includes_str rp [CHR 0x5C] \<or> isAbsolute rp)"
    "\<not> (\<not> startsWith ?full (path_resolve cwd [cd] @ ''/'') \<and> ?full \<noteq> path_resolve cwd [cd])"
    using ok by (auto simp: suspicious_def inside_root_def)
  have h: "handleConfigFileRequest cd cwd pathname s =
     (case fs_stat (files s) ?full of
        Inl e \<Rightarrow> config_error e pathname s
      | Inr st \<Rightarrow>
          if \<not> isFile st then (respond 404 ''File not found'', s)
          else (case fs_readFile (files s) ?full of
                  Inl e \<Rightarrow> config_error e pathname s
                | Inr data \<Rightarrow>
                    (\<lparr> status = 200,
                       headers =
                         [ContentType (getContentType (toLowerCase (path_extname ?full))),
                          ContentLength (length data), LastModified (st_mtime st),
                          CacheControl ''public, max-age=300''],
                       body = data \<rparr>,
                     log (LogConfigAccessed rp) s)))"
    using d g by (auto simp: handleConfigFileRequest_def Let_def)
  {
    assume "files s ?full = Missing \<or> files s ?full = Directory \<or> files s ?full = Faulty ENOENT"
    then show "status (fst (handleConfigFileRequest cd cwd pathname s)) = 404"
      by (auto simp: h fs_stat_def config_error_def respond_def)
  next
    assume "files s ?full = Faulty e \<and> e \<noteq> ENOENT"
    then show "status (fst (handleConfigFileRequest cd cwd pathname s)) = 500"
      by (auto simp: h fs_stat_def config_error_def respond_def)
  next
    assume "files s ?full = File c m"
    then show "fst (handleConfigFileRequest cd cwd pathname s) =
                  \<lparr> status = 200,
                    headers =
                      [ContentType (getContentType (toLowerCase (path_extname ?full))),
                       ContentLength (length c), LastModified m,
                       CacheControl ''public, max-age=300''],
                    body = c \<rparr>"
      by (simp add: h fs_stat_def fs_readFile_def)
  }
qed

text \<open>With the root \<^verbatim>\<open>/app/kindle-config\<close>: \<^verbatim>\<open>readme.txt\<close> is served as text, the
  traversal attempts are refused, a missing file and the root itself give 404, an
  unreadable file and a malformed escape give 500.\<close>

theorem config_request_status_witness:
  "fst (handleConfigFileRequest ''/app/kindle-config'' ''/app'' ''/config/readme.txt''
        (initial_state config_files))
     = \<lparr> status = 200,
         headers = [ContentType ''text/plain'', ContentLength 5, LastModified 7,
                    CacheControl ''public, max-age=300''],
         body = ''hello'' \<rparr>
   \<and> status (fst (handleConfigFileRequest ''/app/kindle-config'' ''/app''
        ''/config/../../etc/passwd'' (initial_state config_files))) = 403
   \<and> status (fst (handleConfigFileRequest ''/app/kindle-config'' ''/app''
        ''/config/..%2F..%2Fetc%2Fpasswd'' (initial_state config_files))) = 403
   \<and> status (fst (handleConfigFileRequest ''/app/kindle-config'' ''/app''
        ''/config/missing.txt'' (initial_state config_files))) = 404
   \<and> status (fst (handleConfigFileRequest ''/app/kindle-config'' ''/app''
        ''/config/'' (initial_state config_files))) = 404
   \<and> status (fst (handleConfigFileRequest ''/app/kindle-config'' ''/app''
        ''/config/secret.txt'' (initial_state config_files))) = 500
   \<and> status (fst (handleConfigFileRequest ''/app/kindle-config'' ''/app''
        ''/config/%zz'' (initial_state config_files))) = 500"
proof -
  let ?cd = "''/app/kindle-config''"
  let ?s = "initial_state config_files"
  note t = config_request_status [where cd = ?cd and cwd = "''/app''" and s = ?s]
  have d1: "decodeURIComponent (drop 8 ''/config/readme.txt'') = Some ''readme.txt''"
    by code_simp
  have o1: "\<not> suspicious ''readme.txt'' \<and> inside_root ''/app'' ?cd ''readme.txt''"
    by code_simp
  have f1: "files ?s (path_resolve ''/app'' [?cd, ''readme.txt'']) = File ''hello'' 7"
    by code_simp
  have e1: "getContentType (toLowerCase (path_extname (path_resolve ''/app'' [?cd, ''readme.txt''])))
      = ''text/plain''"
    by code_simp
  from t [of "''/config/readme.txt''" "''readme.txt''" _ "''hello''" 7] d1 o1 f1
  have "fst (handleConfigFileRequest ?cd ''/app'' ''/config/readme.txt'' ?s)
     = \<lparr> status = 200,
         headers = [ContentType
             (getContentType (toLowerCase (path_extname (path_resolve ''/app'' [?cd, ''readme.txt''])))),
           ContentLength (length ''hello''), LastModified 7,
           CacheControl ''public, max-age=300''],
         body = ''hello'' \<rparr>"
    by blast
  then have c1: "fst (handleConfigFileRequest ?cd ''/app'' ''/config/readme.txt'' ?s)
     = \<lparr> status = 200,
         headers = [ContentType ''text/plain'', ContentLength 5, LastModified 7,
                    CacheControl ''public, max-age=300''],
         body = ''hello'' \<rparr>"
    unfolding e1 by simp
  have d2: "decodeURIComponent (drop 8 ''/config/../../etc/passwd'') = Some ''../../etc/passwd''"
    by code_simp
  have o2: "has_parent_segment ''../../etc/passwd''" by code_simp
  from t [of "''/config/../../etc/passwd''" "''../../etc/passwd''"] d2 o2
  have c2: "status (fst (handleConfigFileRequest ?cd ''/app'' ''/config/../../etc/passwd'' ?s)) = 403"
    by blast
  have d3: "decodeURIComponent (drop 8 ''/config/..%2F..%2Fetc%2Fpasswd'') = Some ''../../etc/passwd''"
    by code_simp
  from t [of "''/config/..%2F..%2Fetc%2Fpasswd''" "''../../etc/passwd''"] d3 o2
  have c3: "status (fst (handleConfigFileRequest ?cd ''/app'' ''/config/..%2F..%2Fetc%2Fpasswd'' ?s)) = 403"
    by blast
  have d4: "decodeURIComponent (drop 8 ''/config/missing.txt'') = Some ''missing.txt''"
    by code_simp
  have o4: "\<not> suspicious ''missing.txt'' \<and> inside_root ''/app'' ?cd ''missing.txt''"
    by code_simp
  have f4: "files ?s (path_resolve ''/app'' [?cd, ''missing.txt'']) = Missing"
    by code_simp
  from t [of "''/config/missing.txt''" "''missing.txt''"] d4 o4 f4
  have c4: "status (fst (handleConfigFileRequest ?cd ''/app'' ''/config/missing.txt'' ?s)) = 404"
    by blast
  have d5: "decodeURIComponent (drop 8 ''/config/'') = Some []" by code_simp
  have o5: "\<not> suspicious [] \<and> inside_root ''/app'' ?cd []" by code_simp
  have f5: "files ?s (path_resolve ''/app'' [?cd, []]) = Directory" by code_simp
  from t [of "''/config/''" "[]"] d5 o5 f5
  have c5: "status (fst (handleConfigFileRequest ?cd ''/app'' ''/config/'' ?s)) = 404"
    by blast
  have d6: "decodeURIComponent (drop 8 ''/config/secret.txt'') = Some ''secret.txt''"
    by code_simp
  have o6: "\<not> suspicious ''secret.txt'' \<and> inside_root ''/app'' ?cd ''secret.txt''"
    by code_simp
  have f6: "files ?s (path_resolve ''/app'' [?cd, ''secret.txt'']) = Faulty EACCES \<and> EACCES \<noteq> ENOENT"
    by code_simp
  from t [of "''/config/secret.txt''" "''secret.txt''" EACCES] d6 o6 f6
  have c6: "status (fst (handleConfigFileRequest ?cd ''/app'' ''/config/secret.txt'' ?s)) = 500"
    by blast
  have d7: "decodeURIComponent (drop 8 ''/config/%zz'') = None" by code_simp
  from t [of "''/config/%zz''" "[]"] d7
  have c7: "status (fst (handleConfigFileRequest ?cd ''/app'' ''/config/%zz'' ?s)) = 500"
    by blast
  from c1 c2 c3 c4 c5 c6 c7 show ?thesis by blast
qed

text \<open>
  Claim C7 as stated fails for a file whose name merely contains two dots:
  \<^verbatim>\<open>notes..txt\<close> has no parent-directory segment, no backslash, is relative, resolves
  inside the root and is readable, and the request is refused with 403.
\<close>

theorem config_request_double_dot_in_name:
  "decodeURIComponent (drop 8 ''/config/notes..txt'') = Some ''notes..txt''
   \<and> \<not> has_parent_segment ''notes..txt''
   \<and> \<not> includes_str ''notes..txt'' [CHR 0x5C]
   \<and> \<not> isAbsolute ''notes..txt''
   \<and> inside_root ''/app'' ''/app/kindle-config'' ''notes..txt''
   \<and> config_files (path_resolve ''/app'' [''/app/kindle-config'', ''notes..txt'']) = File ''notes'' 8
   \<and> status (fst (handleConfigFileRequest ''/app/kindle-config'' ''/app'' ''/config/notes..txt''
        (initial_state config_files))) = 403"
  by code_simp


section \<open>The render cycle\<close>

lemma temp_path_neq_own: "temp_path p \<noteq> artifact_path p"
  by (simp add: temp_path_def)

lemma files_relay_battery:
  "relay_battery env cfg i pc b s = Inr s' \<Longrightarrow> files s' = files s"
  by (auto simp: relay_battery_def sendBatteryLevelToHomeAssistant_def Let_def
        split: option.splits if_splits)

text \<open>The relay raises nothing when a request to the webhook of the target can be
  started.\<close>

lemma relay_battery_returns:
  assumes "\<forall>h. batteryWebHook pc = Some h \<longrightarrow> http_request env (baseUrl cfg @ ''/api/webhook/'' @ h)"
  shows "\<exists>s'. relay_battery env cfg i pc b s = Inr s'"
  using assms
  by (simp add: relay_battery_def sendBatteryLevelToHomeAssistant_def Let_def
        split: option.splits)

lemma files_capture:
  assumes "files s (temp_path p) = Missing"
  shows "files (renderUrlToImageAsync env p (baseUrl cfg @ screenShotUrl p) (temp_path p) s) =
     (case captured env cfg p of
        None \<Rightarrow> files s
      | Some png \<Rightarrow> (files s)(temp_path p := File png (clock env)))"
  using assms
  by (simp add: renderUrlToImageAsync_def captured_def Let_def fs_writeFile_def
        split: option.splits)

lemma files_convert_no_temp:
  assumes "files s (temp_path p) = Missing"
  shows "files (convert_or_cleanup env p url s) = files s"
  using assms
  by (simp add: convert_or_cleanup_def Let_def fs_access_def unlink_quiet_def fs_unlink_def)

lemma files_convert_temp:
  assumes "files s = fs(temp_path p := File png t)" "fs (temp_path p) = Missing"
  shows "files (convert_or_cleanup env p url s) =
     (case sharp_toFile env (convert_ops p) png of
        Written out \<Rightarrow> fs(artifact_path p := written (fs (artifact_path p)) out (clock env))
      | Failed None \<Rightarrow> fs
      | Failed (Some part) \<Rightarrow>
          fs(artifact_path p := written (fs (artifact_path p)) part (clock env)))"
proof -
  have n: "temp_path p \<noteq> artifact_path p" by (rule temp_path_neq_own)
  have r: "(fs(temp_path p := File png t))(temp_path p := Missing) = fs"
    using assms(2) by (auto simp: fun_eq_iff)
  have w: "(fs(temp_path p := File png t, artifact_path p := e))(temp_path p := Missing)
      = fs(artifact_path p := e)" for e
    using assms(2) n by (auto simp: fun_eq_iff)
  have k: "files (convert_or_cleanup env p url s) =
      (case fs (artifact_path p) of
         Missing \<Rightarrow> fs(artifact_path p := File c (clock env))
       | File c0 m \<Rightarrow> fs(artifact_path p := File c (clock env))
       | Directory \<Rightarrow> fs
       | Faulty e \<Rightarrow> fs)"
    if "sharp_toFile env (convert_ops p) png = Written c
        \<or> sharp_toFile env (convert_ops p) png = Failed (Some c)" for c
    using that assms(1) r w n
    by (cases "fs (artifact_path p)")
      (auto simp: convert_or_cleanup_def Let_def fs_access_def unlink_quiet_def
         fs_unlink_def convertImageToKindleCompatiblePngAsync_def fs_readFile_def
         fs_writeFile_def)
  have e: "(case fs (artifact_path p) of
         Missing \<Rightarrow> fs(artifact_path p := File c (clock env))
       | File c0 m \<Rightarrow> fs(artifact_path p := File c (clock env))
       | Directory \<Rightarrow> fs
       | Faulty e \<Rightarrow> fs)
      = fs(artifact_path p := written (fs (artifact_path p)) c (clock env))" for c
    by (cases "fs (artifact_path p)") (auto simp: written_def fun_eq_iff)
  show ?thesis
  proof (cases "sharp_toFile env (convert_ops p) png")
    case (Written out)
    with k [of out] e [of out] show ?thesis by simp
  next
    case (Failed x)
    show ?thesis
    proof (cases x)
      case None
      with Failed show ?thesis
        using assms(1) r
        by (simp add: convert_or_cleanup_def Let_def fs_access_def unlink_quiet_def
              fs_unlink_def convertImageToKindleCompatiblePngAsync_def fs_readFile_def)
    next
      case (Some part)
      with Failed k [of part] e [of part] show ?thesis by simp
    qed
  qed
qed

lemma convert_files_after_target:
  assumes "files s (temp_path p) = Missing"
  shows "files (convert_or_cleanup env p url
            (renderUrlToImageAsync env p (baseUrl cfg @ screenShotUrl p) (temp_path p)
               (log e s)))
     = after_target env cfg p (files s)"
proof -
  let ?s2 = "renderUrlToImageAsync env p (baseUrl cfg @ screenShotUrl p) (temp_path p) (log e s)"
  have m: "files (log e s) (temp_path p) = Missing" using assms by simp
  have c: "files ?s2 =
     (case captured env cfg p of
        None \<Rightarrow> files s
      | Some png \<Rightarrow> (files s)(temp_path p := File png (clock env)))"
    using files_capture [OF m, of env cfg] by (simp split: option.splits)
  show ?thesis
  proof (cases "captured env cfg p")
    case None
    with c have "files ?s2 = files s" by simp
    with assms have "files (convert_or_cleanup env p url ?s2) = files s"
      by (simp add: files_convert_no_temp)
    with None show ?thesis by (simp add: after_target_def target_entry_def)
  next
    case (Some png)
    with c have "files ?s2 = (files s)(temp_path p := File png (clock env))" by simp
    from files_convert_temp [OF this assms, of env url] Some
    show ?thesis
      by (simp add: after_target_def target_entry_def
            split: sharp_result.splits option.splits)
  qed
qed

text \<open>One pass of the loop body, when the output directory can be made and no file is
  at the temporary path: whether or not the relay raises, the files are those that the
  target leaves behind.\<close>

lemma render_page_files:
  assumes "ensureDir env (path_dirname (artifact_path (pages cfg ! i))) = None"
    and "files s (temp_path (pages cfg ! i)) = Missing"
  shows "files (snd (render_page env cfg i s)) = after_target env cfg (pages cfg ! i) (files s)"
  using assms(1) convert_files_after_target [OF assms(2), of env _ cfg]
  by (auto simp: render_page_def Let_def dest: files_relay_battery split: sum.splits)

lemma render_page_returns:
  assumes "ensureDir env (path_dirname (artifact_path (pages cfg ! i))) = None"
    and "\<forall>h. batteryWebHook (pages cfg ! i) = Some h
           \<longrightarrow> http_request env (baseUrl cfg @ ''/api/webhook/'' @ h)"
  shows "fst (render_page env cfg i s) = None"
proof -
  let ?p = "pages cfg ! i"
  let ?url = "baseUrl cfg @ screenShotUrl ?p"
  let ?s3 = "convert_or_cleanup env ?p ?url
     (renderUrlToImageAsync env ?p ?url (temp_path ?p) (log (LogRendering ?url) s))"
  obtain s' where "relay_battery env cfg i ?p (batteryStore s i) ?s3 = Inr s'"
    using relay_battery_returns [OF assms(2)] by blast
  then show ?thesis using assms(1) by (simp add: render_page_def Let_def)
qed

lemma after_target_other:
  "q \<noteq> artifact_path p \<Longrightarrow> after_target env cfg p fs q = fs q"
  by (simp add: after_target_def)

lemma after_target_own:
  "after_target env cfg p fs (artifact_path p) = target_entry env cfg p (fs (artifact_path p))"
  by (simp add: after_target_def)

lemma after_targets_other:
  "q \<notin> artifact_path ` set ps \<Longrightarrow> after_targets env cfg ps fs q = fs q"
  by (induction ps arbitrary: fs) (simp_all add: after_target_other)

lemma after_targets_own:
  assumes "distinct (map artifact_path ps)" "p \<in> set ps"
  shows "after_targets env cfg ps fs (artifact_path p)
     = target_entry env cfg p (fs (artifact_path p))"
  using assms
proof (induction ps arbitrary: fs)
  case Nil
  then show ?case by simp
next
  case (Cons a ps)
  show ?case
  proof (cases "artifact_path p = artifact_path a")
    case True
    from Cons.prems(1) have "artifact_path a \<notin> artifact_path ` set ps" by simp
    then have "after_targets env cfg ps (after_target env cfg a fs) (artifact_path a)
        = after_target env cfg a fs (artifact_path a)"
      by (rule after_targets_other)
    moreover have "p = a"
    proof (rule ccontr)
      assume "p \<noteq> a"
      with Cons.prems(2) have "p \<in> set ps" by simp
      with True Cons.prems(1) show False by (simp add: image_iff) metis
    qed
    ultimately show ?thesis by (simp add: after_target_own)
  next
    case False
    with Cons.prems have "p \<in> set ps" "distinct (map artifact_path ps)" by auto
    from Cons.IH [OF this(2,1), of "after_target env cfg a fs"] False
    show ?thesis by (simp add: after_target_other)
  qed
qed

lemma render_loop_files:
  assumes "\<forall>p \<in> set (pages cfg). ensureDir env (path_dirname (artifact_path p)) = None"
    and "\<forall>p \<in> set (pages cfg). \<forall>h. batteryWebHook p = Some h
           \<longrightarrow> http_request env (baseUrl cfg @ ''/api/webhook/'' @ h)"
    and "\<forall>p \<in> set (pages cfg). \<forall>q \<in> set (pages cfg). temp_path p \<noteq> artifact_path q"
    and "\<forall>p \<in> set (drop k (pages cfg)). files s (temp_path p) = Missing"
  shows "fst (render_loop env cfg k s) = None
     \<and> files (snd (render_loop env cfg k s)) = after_targets env cfg (drop k (pages cfg)) (files s)"
  using assms
proof (induction env cfg k s rule: render_loop.induct)
  case (1 env cfg k s)
  show ?case
  proof (cases "k < length (pages cfg)")
    case False
    then show ?thesis by (simp add: render_loop.simps [of env cfg k s])
  next
    case True
    let ?p = "pages cfg ! k"
    have d: "drop k (pages cfg) = ?p # drop (Suc k) (pages cfg)"
      using True by (simp add: Cons_nth_drop_Suc)
    have pin: "?p \<in> set (pages cfg)" using True by simp
    have en: "ensureDir env (path_dirname (artifact_path ?p)) = None"
      using "1.prems"(1) pin by blast
    have hk: "\<forall>h. batteryWebHook ?p = Some h
           \<longrightarrow> http_request env (baseUrl cfg @ ''/api/webhook/'' @ h)"
      using "1.prems"(2) pin by blast
    have tm: "files s (temp_path ?p) = Missing"
      using "1.prems"(4) d by simp
    obtain r s' where rp: "render_page env cfg k s = (r, s')"
      by (cases "render_page env cfg k s")
    from render_page_returns [OF en hk, of s] rp have rn: "r = None" by simp
    from render_page_files [OF en tm] rp
    have fs': "files s' = after_target env cfg ?p (files s)" by simp
    have "\<forall>q \<in> set (drop (Suc k) (pages cfg)). files s' (temp_path q) = Missing"
    proof
      fix q assume q: "q \<in> set (drop (Suc k) (pages cfg))"
      then have "q \<in> set (pages cfg)" by (rule in_set_dropD)
      with "1.prems"(3) pin have "temp_path q \<noteq> artifact_path ?p" by blast
      moreover have "files s (temp_path q) = Missing" using "1.prems"(4) d q by simp
      ultimately show "files s' (temp_path q) = Missing"
        by (simp add: fs' after_target_other)
    qed
    from "1.IH" [OF True rp [symmetric] rn "1.prems"(1,2,3) this] rp rn fs' True d
    show ?thesis by (simp add: render_loop.simps [of env cfg k s])
  qed
qed

text \<open>
  What does hold of a render cycle. Take one that has a browser, whose targets have
  pairwise distinct artifact and temporary paths, whose output directories can be made,
  whose webhook requests can be started, and that starts with no file at any target's
  temporary path. Then the loop runs to its end without an exception, and for every
  target, whatever happened to the other targets: no temporary file is left, and the
  entry at the artifact path is the one given by \<open>target_entry\<close>. That is the entry from
  before the cycle when the capture failed or the library failed before it wrote
  anything, and the new image when both succeeded.
\<close>

lemma render_cycle_artifacts:
  assumes "existingBrowser \<or> launch_ok env"
    and "distinct (map artifact_path (pages cfg) @ map temp_path (pages cfg))"
    and "\<forall>p \<in> set (pages cfg). ensureDir env (path_dirname (artifact_path p)) = None"
    and "\<forall>p \<in> set (pages cfg). \<forall>h. batteryWebHook p = Some h
           \<longrightarrow> http_request env (baseUrl cfg @ ''/api/webhook/'' @ h)"
    and "\<forall>p \<in> set (pages cfg). files s (temp_path p) = Missing"
    and "i < length (pages cfg)"
  shows "fst (renderAndConvertAsync env cfg existingBrowser s) = None
     \<and> files (snd (renderAndConvertAsync env cfg existingBrowser s)) (temp_path (pages cfg ! i))
         = Missing
     \<and> files (snd (renderAndConvertAsync env cfg existingBrowser s)) (artifact_path (pages cfg ! i))
         = target_entry env cfg (pages cfg ! i) (files s (artifact_path (pages cfg ! i)))"
proof -
  let ?p = "pages cfg ! i"
  have pin: "?p \<in> set (pages cfg)" using assms(6) by simp
  have da: "distinct (map artifact_path (pages cfg))"
    and dj: "\<forall>p \<in> set (pages cfg). \<forall>q \<in> set (pages cfg). temp_path p \<noteq> artifact_path q"
    using assms(2) by auto
  have r: "renderAndConvertAsync env cfg existingBrowser s = render_loop env cfg 0 s"
    using assms(1) by (auto simp: renderAndConvertAsync_def)
  have l: "fst (render_loop env cfg 0 s) = None
     \<and> files (snd (render_loop env cfg 0 s)) = after_targets env cfg (pages cfg) (files s)"
    using render_loop_files [of cfg env 0 s] assms(3,4,5) dj by simp
  have "temp_path ?p \<notin> artifact_path ` set (pages cfg)" using dj pin by blast
  then have t: "after_targets env cfg (pages cfg) (files s) (temp_path ?p) = Missing"
    using assms(5) pin by (simp add: after_targets_other)
  have a: "after_targets env cfg (pages cfg) (files s) (artifact_path ?p)
      = target_entry env cfg ?p (files s (artifact_path ?p))"
    using da pin by (rule after_targets_own)
  show ?thesis using l t a by (simp add: r)
qed

lemma target_entry_capture_failed:
  "captured env cfg p = None \<Longrightarrow> target_entry env cfg p old = old"
  by (simp add: target_entry_def)

lemma target_entry_conversion_failed:
  "captured env cfg p = Some png \<Longrightarrow> sharp_toFile env (convert_ops p) png = Failed None
     \<Longrightarrow> target_entry env cfg p old = old"
  by (simp add: target_entry_def)

lemma target_entry_succeeded:
  "captured env cfg p = Some png \<Longrightarrow> sharp_toFile env (convert_ops p) png = Written out
     \<Longrightarrow> target_entry env cfg p (File c m) = File out (clock env)"
  by (simp add: target_entry_def written_def)

text \<open>Three targets with old artifacts, the capture of the second fails: the first and
  the third artifact are new, the second is the old one, and no temporary file of the
  second is left.\<close>

lemma capture_failure_of_second_target:
  "captured (sample_env (\<lambda>u. u = ''http://ha:8123/lovelace/2'')) three_targets
       (pages three_targets ! 1) = None
   \<and> fst (renderAndConvertAsync (sample_env (\<lambda>u. u = ''http://ha:8123/lovelace/2''))
          three_targets False (initial_state old_artifacts)) = None
   \<and> files (snd (renderAndConvertAsync (sample_env (\<lambda>u. u = ''http://ha:8123/lovelace/2''))
          three_targets False (initial_state old_artifacts))) ''output/cover.png''
       = File ''png of shot of http://ha:8123/lovelace/1'' 9
   \<and> files (snd (renderAndConvertAsync (sample_env (\<lambda>u. u = ''http://ha:8123/lovelace/2''))
          three_targets False (initial_state old_artifacts))) ''output/cover_2.png''
       = File ''old 2'' 2
   \<and> files (snd (renderAndConvertAsync (sample_env (\<lambda>u. u = ''http://ha:8123/lovelace/2''))
          three_targets False (initial_state old_artifacts))) ''output/cover_2.png.temp''
       = Missing
   \<and> files (snd (renderAndConvertAsync (sample_env (\<lambda>u. u = ''http://ha:8123/lovelace/2''))
          three_targets False (initial_state old_artifacts))) ''output/cover_3.png''
       = File ''png of shot of http://ha:8123/lovelace/3'' 9"
  by code_simp

text \<open>
  Claim C2 fails in the code, against the comment in the loop (\<^verbatim>\<open>Check if the temp file
  was actually created before trying to convert it\<close>): the loop tests that a file is at
  the temporary path, not that this capture made it. One target with the artifact
  \<^verbatim>\<open>output/cover.png\<close>, a file left at \<^verbatim>\<open>output/cover.png.temp\<close>, and a capture that
  fails: the cycle ends without an exception, the left-over file is converted, and the
  artifact of the failed target is replaced by the result.
\<close>

theorem stale_temp_file_is_converted:
  "captured (sample_env (\<lambda>u. True)) one_target (pages one_target ! 0) = None
   \<and> artifact_path (pages one_target ! 0) = ''output/cover.png''
   \<and> temp_path (pages one_target ! 0) = ''output/cover.png.temp''
   \<and> stale_temp ''output/cover.png'' = File ''old 1'' 1
   \<and> stale_temp ''output/cover.png.temp'' = File ''stale'' 0
   \<and> fst (renderAndConvertAsync (sample_env (\<lambda>u. True)) one_target False
          (initial_state stale_temp)) = None
   \<and> logs (snd (renderAndConvertAsync (sample_env (\<lambda>u. True)) one_target False
          (initial_state stale_temp)))
       = [LogRendering ''http://ha:8123/lovelace/1'', LogRenderFailed ''http://ha:8123/lovelace/1'',
          LogConverting ''http://ha:8123/lovelace/1'', LogFinished ''http://ha:8123/lovelace/1'']
   \<and> files (snd (renderAndConvertAsync (sample_env (\<lambda>u. True)) one_target False
          (initial_state stale_temp))) ''output/cover.png''
       = File ''png of stale'' 9
   \<and> files (snd (renderAndConvertAsync (sample_env (\<lambda>u. True)) one_target False
          (initial_state stale_temp))) ''output/cover.png.temp''
       = Missing"
  by code_simp

text \<open>The artifact of a failed target is not safe from a failed conversion either: the
  library writes to the artifact path itself, and the \<^verbatim>\<open>catch\<close> removes the temporary
  file only. When the library fails after it has written a part of the output, that
  part is what the artifact path holds after the cycle.\<close>

lemma failed_conversion_leaves_partial_artifact:
  "captured partial_write_env one_target (pages one_target ! 0)
       = Some ''shot of http://ha:8123/lovelace/1''
   \<and> sharp_toFile partial_write_env (convert_ops (pages one_target ! 0))
         ''shot of http://ha:8123/lovelace/1'' = Failed (Some ''part'')
   \<and> old_artifacts ''output/cover.png'' = File ''old 1'' 1
   \<and> fst (renderAndConvertAsync partial_write_env one_target False (initial_state old_artifacts))
       = None
   \<and> logs (snd (renderAndConvertAsync partial_write_env one_target False
          (initial_state old_artifacts)))
       = [LogRendering ''http://ha:8123/lovelace/1'', LogRendered ''http://ha:8123/lovelace/1'',
          LogConverting ''http://ha:8123/lovelace/1'', LogFailed ''http://ha:8123/lovelace/1'']
   \<and> files (snd (renderAndConvertAsync partial_write_env one_target False
          (initial_state old_artifacts))) ''output/cover.png''
       = File ''part'' 9
   \<and> files (snd (renderAndConvertAsync partial_write_env one_target False
          (initial_state old_artifacts))) ''output/cover.png.temp''
       = Missing"
  by code_simp

text \<open>Two calls of the loop body are outside every \<^verbatim>\<open>try\<close>. Making the output
  directory: when it fails for the second target, the cycle ends with that exception and
  the third target is not rendered, though its capture would succeed.\<close>

lemma ensureDir_failure_stops_cycle:
  "captured blocked_dir_env three_dirs (pages three_dirs ! 0) = None
   \<and> target_entry blocked_dir_env three_dirs (pages three_dirs ! 2)
         (old_artifacts ''output/cover_3.png'')
       = File ''png of shot of http://ha:8123/lovelace/3'' 9
   \<and> fst (renderAndConvertAsync blocked_dir_env three_dirs False (initial_state old_artifacts))
       = Some (FsError EACCES)
   \<and> files (snd (renderAndConvertAsync blocked_dir_env three_dirs False (initial_state old_artifacts)))
         ''output/cover_3.png''
       = File ''old 3'' 3"
  by code_simp

text \<open>Relaying the battery level: when the request to the webhook of the first target
  cannot be started, the cycle ends with that exception after the first target, and the
  second target is not rendered.\<close>

lemma relay_failure_stops_cycle:
  "batteryWebHook (pages webhook_targets ! 0) = Some ''kindle''
   \<and> batteryStore reported_state 0 = Some \<lparr> batteryLevel = Some 42, isCharging = True \<rparr>
   \<and> \<not> http_request no_request_env ''http://ha:8123/api/webhook/kindle''
   \<and> target_entry no_request_env webhook_targets (pages webhook_targets ! 1)
         (old_artifacts ''output/cover_2.png'')
       = File ''png of shot of http://ha:8123/lovelace/2'' 9
   \<and> fst (renderAndConvertAsync no_request_env webhook_targets False reported_state)
       = Some RequestError
   \<and> files (snd (renderAndConvertAsync no_request_env webhook_targets False reported_state))
         ''output/cover.png''
       = File ''png of shot of http://ha:8123/lovelace/1'' 9
   \<and> files (snd (renderAndConvertAsync no_request_env webhook_targets False reported_state))
         ''output/cover_2.png''
       = File ''old 2'' 2"
  by code_simp

text \<open>Nothing keeps two targets from one output path: the capture of the second target
  fails, and the artifact at its path is the new image of the first.\<close>

lemma shared_artifact_path_is_overwritten:
  "artifact_path (pages shared_path ! 1) = ''output/cover.png''
   \<and> captured (sample_env (\<lambda>u. u = ''http://ha:8123/lovelace/2'')) shared_path
         (pages shared_path ! 1) = None
   \<and> old_artifacts ''output/cover.png'' = File ''old 1'' 1
   \<and> files (snd (renderAndConvertAsync (sample_env (\<lambda>u. u = ''http://ha:8123/lovelace/2''))
         shared_path False (initial_state old_artifacts))) ''output/cover.png''
       = File ''png of shot of http://ha:8123/lovelace/1'' 9"
  by code_simp

end
